theory Spec2Isabelle
  imports Main
begin

text \<open>
  A model of the manifest extractor: the syntax-tree walk of parser.js and the manifest
  assembly, simplification and string interning of manifestBuilder.js. The exported
  functions are wrapped by \<^verbatim>\<open>trace\<close>, which logs the call and hands on the result or the
  error of the wrapped function unchanged; the model is of the wrapped functions.
\<close>

section \<open>JavaScript values\<close>

text \<open>
  The extractor works on plain JavaScript data: syntax-tree nodes, symbol and dependency
  records, manifests. All of it is JSON-shaped, so one datatype carries it. An object is the
  list of its entries in \<^verbatim>\<open>Object.entries\<close> order (the keys of a JavaScript object are
  distinct); the numbers the program handles (line and column numbers, counts, table
  indices) are integers.
\<close>

datatype jsval =
    JUndefined
  | JNull
  | JBool bool
  | JNum int
  | JStr string
  | JArr "jsval list"
  | JObj "(string \<times> jsval) list"

type_synonym obj = "(string \<times> jsval) list"

text \<open>
  What the program throws: the \<^verbatim>\<open>TypeError\<close> of the runtime (reading a property of
  \<^verbatim>\<open>undefined\<close> or \<^verbatim>\<open>null\<close>, calling a method that is not there), and the two error
  classes of errors.js the modules raise themselves, \<^verbatim>\<open>UserInputError(message)\<close> and
  \<^verbatim>\<open>ParseError(message, path, position)\<close> (path and position are kept).
\<close>

datatype error =
    TypeError
  | UserInputError string
  | ParseError string jsval

text \<open>\<^verbatim>\<open>o.k\<close> on an object: the value stored under \<open>k\<close>, \<^verbatim>\<open>undefined\<close> when the key is absent.\<close>

definition field :: "obj \<Rightarrow> string \<Rightarrow> jsval" where
  "field kvs k = (case map_of kvs k of None \<Rightarrow> JUndefined | Some v \<Rightarrow> v)"

text \<open>JavaScript truthiness (\<^verbatim>\<open>if (v)\<close>, \<^verbatim>\<open>!v\<close>, \<^verbatim>\<open>v || d\<close>, \<^verbatim>\<open>v ? a : b\<close>).\<close>

fun truthy :: "jsval \<Rightarrow> bool" where
  "truthy JUndefined = False"
| "truthy JNull = False"
| "truthy (JBool b) = b"
| "truthy (JNum n) = (n \<noteq> 0)"
| "truthy (JStr s) = (s \<noteq> [])"
| "truthy (JArr xs) = True"
| "truthy (JObj kvs) = True"

text \<open>
  Reading a named property. The names the program reads (\<^verbatim>\<open>type\<close>, \<^verbatim>\<open>name\<close>, \<^verbatim>\<open>params\<close>,
  \<^verbatim>\<open>loc\<close>, ...) are own properties of objects only: on an array, a string, a number or a
  boolean they are \<^verbatim>\<open>undefined\<close>. \<open>getv\<close> is the read where the receiver is known not to be
  \<^verbatim>\<open>undefined\<close> or \<^verbatim>\<open>null\<close>; \<open>getProp\<close> is the read that may throw.
\<close>

fun getv :: "jsval \<Rightarrow> string \<Rightarrow> jsval" where
  "getv (JObj kvs) k = field kvs k"
| "getv v k = JUndefined"

definition nullish :: "jsval \<Rightarrow> bool" where
  "nullish v = (v = JUndefined \<or> v = JNull)"

definition getProp :: "jsval \<Rightarrow> string \<Rightarrow> error + jsval" where
  "getProp v k = (if nullish v then Inl TypeError else Inr (getv v k))"

fun elems :: "jsval \<Rightarrow> jsval set" where
  "elems (JArr xs) = set xs"
| "elems v = {}"

text \<open>
  The node tests of the syntax-tree library, \<^verbatim>\<open>t.isIdentifier(node)\<close> and its siblings:
  false on a falsy argument, otherwise a comparison of \<^verbatim>\<open>node.type\<close> with the kind's name.
\<close>

definition isType :: "string \<Rightarrow> jsval \<Rightarrow> bool" where
  "isType ty node = (truthy node \<and> getv node ''type'' = JStr ty)"

text \<open>Sequencing of computations that may throw: the first error ends the computation.\<close>

definition bindE :: "error + 'a \<Rightarrow> ('a \<Rightarrow> error + 'b) \<Rightarrow> error + 'b" where
  "bindE r f = (case r of Inl e \<Rightarrow> Inl e | Inr x \<Rightarrow> f x)"

lemma bindE_simps [simp]: "bindE (Inl e) f = Inl e" "bindE (Inr x) f = f x"
  by (simp_all add: bindE_def)

fun mapE :: "('a \<Rightarrow> error + 'b) \<Rightarrow> 'a list \<Rightarrow> error + 'b list" where
  "mapE f [] = Inr []"
| "mapE f (x # xs) = bindE (f x) (\<lambda>y. bindE (mapE f xs) (\<lambda>ys. Inr (y # ys)))"

fun foldE :: "('a \<Rightarrow> 's \<Rightarrow> error + 's) \<Rightarrow> 'a list \<Rightarrow> 's \<Rightarrow> error + 's" where
  "foldE f [] s = Inr s"
| "foldE f (x # xs) s = bindE (f x s) (foldE f xs)"

text \<open>
  \<^verbatim>\<open>v.map(f)\<close> and \<^verbatim>\<open>v.forEach(f)\<close>: on an array the elements are handled from left to
  right; on anything else the call throws (the method is not there, or the receiver is
  \<^verbatim>\<open>undefined\<close>).
\<close>

definition js_map :: "(jsval \<Rightarrow> error + jsval) \<Rightarrow> jsval \<Rightarrow> error + jsval" where
  "js_map f v = (case v of JArr xs \<Rightarrow> bindE (mapE f xs) (\<lambda>ys. Inr (JArr ys)) | _ \<Rightarrow> Inl TypeError)"

definition js_forEach :: "(jsval \<Rightarrow> 's \<Rightarrow> error + 's) \<Rightarrow> jsval \<Rightarrow> 's \<Rightarrow> error + 's" where
  "js_forEach f v s = (case v of JArr xs \<Rightarrow> foldE f xs s | _ \<Rightarrow> Inl TypeError)"

text \<open>\<^verbatim>\<open>v.length\<close>, \<^verbatim>\<open>v[0]\<close> and \<^verbatim>\<open>v.filter(Boolean)\<close>.\<close>

definition js_length :: "jsval \<Rightarrow> error + jsval" where
  "js_length v =
     (case v of
        JArr xs \<Rightarrow> Inr (JNum (int (length xs)))
      | JStr s \<Rightarrow> Inr (JNum (int (length s)))
      | _ \<Rightarrow> getProp v ''length'')"

definition js_first :: "jsval \<Rightarrow> error + jsval" where
  "js_first v =
     (case v of
        JArr xs \<Rightarrow> Inr (case xs of [] \<Rightarrow> JUndefined | x # _ \<Rightarrow> x)
      | JStr s \<Rightarrow> Inr (case s of [] \<Rightarrow> JUndefined | c # _ \<Rightarrow> JStr [c])
      | _ \<Rightarrow> getProp v ''0'')"

definition filterBoolean :: "jsval \<Rightarrow> jsval" where
  "filterBoolean v = (case v of JArr xs \<Rightarrow> JArr (filter truthy xs) | _ \<Rightarrow> v)"

text \<open>
  String conversion, as a template literal \<^verbatim>\<open>`${v}`\<close> and \<^verbatim>\<open>Array.prototype.join\<close> do it:
  \<^verbatim>\<open>join\<close> writes \<^verbatim>\<open>undefined\<close> and \<^verbatim>\<open>null\<close> as the empty string.
\<close>

fun digit :: "nat \<Rightarrow> char" where
  "digit n = char_of (48 + n)"

fun decimal :: "nat \<Rightarrow> string" where
  "decimal n = (if n < 10 then [digit n] else decimal (n div 10) @ [digit (n mod 10)])"

fun toStr :: "jsval \<Rightarrow> string"
  and joinWith :: "string \<Rightarrow> jsval list \<Rightarrow> string"
where
  "toStr JUndefined = ''undefined''"
| "toStr JNull = ''null''"
| "toStr (JBool b) = (if b then ''true'' else ''false'')"
| "toStr (JNum n) = (if n < 0 then ''-'' @ decimal (nat (- n)) else decimal (nat n))"
| "toStr (JStr s) = s"
| "toStr (JArr xs) = joinWith '','' xs"
| "toStr (JObj kvs) = ''[object Object]''"
| "joinWith sep [] = []"
| "joinWith sep (x # xs) =
     (if x = JUndefined \<or> x = JNull then [] else toStr x)
       @ (if xs = [] then [] else sep @ joinWith sep xs)"

section \<open>The result of extraction for one file\<close>

text \<open>
  The \<^verbatim>\<open>metadata\<close> object \<^verbatim>\<open>parseFile\<close> returns and \<^verbatim>\<open>buildManifest\<close> consumes. The builder
  reads each field with a default (\<^verbatim>\<open>metadata.symbols || []\<close>), so each may be absent;
  \<^verbatim>\<open>parseFile\<close> always sets the two arrays and sets \<^verbatim>\<open>hasDefaultExport\<close> only to \<^verbatim>\<open>true\<close>.
  Symbols and dependencies are objects.
\<close>

record metadata =
  symbols :: "obj list option"
  dependencies :: "obj list option"
  hasDefaultExport :: "bool option"

section \<open>Type annotations and parameters (parser.js)\<close>

subsection \<open>Sub-values are smaller\<close>

text \<open>
  \<^verbatim>\<open>getTSTypeName\<close> and the tree traversal recurse into fields of a node and into the
  elements of array-valued fields. They terminate because a tree is finite: each of these
  is smaller than the node.
\<close>

lemma size_field: "size (field kvs k) < size (JObj kvs)"
proof (cases "map_of kvs k")
  case None
  then show ?thesis by (simp add: field_def)
next
  case (Some v)
  then have "(k, v) \<in> set kvs" by (rule map_of_SomeD)
  then have "size v < Suc (size_list (size_prod (\<lambda>_. 0) size) kvs)"
    by (induction kvs) auto
  with Some show ?thesis by (simp add: field_def)
qed

lemma size_getv: "size (getv v k) \<le> size v"
  using size_field [of _ k] by (cases v) (auto simp: less_imp_le)

lemma size_elem: "x \<in> set xs \<Longrightarrow> size x < size (JArr xs)"
  by (induction xs) auto

lemma size_elems: "x \<in> elems v \<Longrightarrow> size x < size v"
  by (cases v) (auto dest: size_elem)

lemma size_type_child: "isType ty v \<Longrightarrow> size (getv v k) < size v"
  using size_field [of _ k] by (cases v) (auto simp: isType_def)

lemma size_elems_child: "x \<in> elems (getv v k) \<Longrightarrow> size x < size v"
  using size_elems [of x "getv v k"] size_getv [of v k] by simp

lemma size_elems_grandchild: "x \<in> elems (getv (getv v k) k') \<Longrightarrow> size x < size v"
  using size_elems_child [of x "getv v k" k'] size_getv [of v k] by simp

lemma mapE_cong [fundef_cong]:
  "xs = ys \<Longrightarrow> (\<And>x. x \<in> set ys \<Longrightarrow> f x = g x) \<Longrightarrow> mapE f xs = mapE g ys"
  by (induction ys arbitrary: xs) auto

lemma js_map_cong [fundef_cong]:
  "v = w \<Longrightarrow> (\<And>x. x \<in> elems w \<Longrightarrow> f x = g x) \<Longrightarrow> js_map f v = js_map g w"
  by (cases w) (auto simp: js_map_def cong: mapE_cong)

lemma bindE_cong [fundef_cong]:
  "r = r' \<Longrightarrow> (\<And>x. r' = Inr x \<Longrightarrow> f x = g x) \<Longrightarrow> bindE r f = bindE r' g"
  by (cases r') (auto simp: bindE_def)

subsection \<open>getTSTypeName and extractTypeAnnotation\<close>

function getTSTypeName :: "jsval \<Rightarrow> error + jsval" where
  "getTSTypeName tsType =
     (if \<not> truthy tsType then Inr (JStr ''any'')
      else if isType ''TSStringKeyword'' tsType then Inr (JStr ''string'')
      else if isType ''TSNumberKeyword'' tsType then Inr (JStr ''number'')
      else if isType ''TSBooleanKeyword'' tsType then Inr (JStr ''boolean'')
      else if isType ''TSAnyKeyword'' tsType then Inr (JStr ''any'')
      else if isType ''TSVoidKeyword'' tsType then Inr (JStr ''void'')
      else if isType ''TSNullKeyword'' tsType then Inr (JStr ''null'')
      else if isType ''TSUndefinedKeyword'' tsType then Inr (JStr ''undefined'')
      else if isType ''TSNeverKeyword'' tsType then Inr (JStr ''never'')
      else if isType ''TSUnknownKeyword'' tsType then Inr (JStr ''unknown'')
      else if isType ''TSArrayType'' tsType then
        bindE (getTSTypeName (getv tsType ''elementType''))
          (\<lambda>e. Inr (JStr (toStr e @ ''[]'')))
      else if isType ''TSTypeReference'' tsType
              \<and> isType ''Identifier'' (getv tsType ''typeName'') then
        (if truthy (getv tsType ''typeParameters'') then
           bindE (js_map getTSTypeName (getv (getv tsType ''typeParameters'') ''params''))
             (\<lambda>ps. Inr (JStr (toStr (getv (getv tsType ''typeName'') ''name'')
                               @ ''<'' @ joinWith '', '' (case ps of JArr xs \<Rightarrow> xs | _ \<Rightarrow> []) @ ''>'')))
         else Inr (getv (getv tsType ''typeName'') ''name''))
      else if isType ''TSUnionType'' tsType then
        bindE (js_map getTSTypeName (getv tsType ''types''))
          (\<lambda>ts. Inr (JStr (joinWith '' | '' (case ts of JArr xs \<Rightarrow> xs | _ \<Rightarrow> []))))
      else if isType ''TSIntersectionType'' tsType then
        bindE (js_map getTSTypeName (getv tsType ''types''))
          (\<lambda>ts. Inr (JStr (joinWith '' & '' (case ts of JArr xs \<Rightarrow> xs | _ \<Rightarrow> []))))
      else Inr (JStr ''any''))"
  by pat_completeness auto
termination
  by (relation "measure size") (auto simp: size_type_child size_elems_child size_elems_grandchild)

declare getTSTypeName.simps [simp del]

text \<open>
  The syntax-tree library exports no function named \<^verbatim>\<open>isFlowTypeAnnotation\<close>, so
  \<^verbatim>\<open>t.isFlowTypeAnnotation\<close> is \<^verbatim>\<open>undefined\<close> and the call at line 259 raises a
  \<^verbatim>\<open>TypeError\<close>, whatever the argument.
\<close>

definition isFlowTypeAnnotation :: "jsval \<Rightarrow> error + bool" where
  "isFlowTypeAnnotation annotation = Inl TypeError"

text \<open>
  \<^verbatim>\<open>const annotation = typeAnnotation.typeAnnotation || typeAnnotation\<close>, then the tests
  \<^verbatim>\<open>t.isTSTypeAnnotation(annotation)\<close> and \<^verbatim>\<open>t.isFlowTypeAnnotation(annotation)\<close>, in this
  order.
\<close>

definition annotationOf :: "jsval \<Rightarrow> jsval" where
  "annotationOf typeAnnotation =
     (if truthy (getv typeAnnotation ''typeAnnotation'')
      then getv typeAnnotation ''typeAnnotation'' else typeAnnotation)"

definition extractTypeAnnotation :: "jsval \<Rightarrow> error + jsval" where
  "extractTypeAnnotation typeAnnotation =
     (if \<not> truthy typeAnnotation then Inr (JStr ''any'')
      else
        let annotation = annotationOf typeAnnotation
        in if isType ''TSTypeAnnotation'' annotation
           then getTSTypeName (getv annotation ''typeAnnotation'')
           else bindE (isFlowTypeAnnotation annotation) (\<lambda>flow.
                  if flow then Inr (JStr ''any'') else Inr (JStr ''any'')))"

subsection \<open>extractParamInfo\<close>

text \<open>The two arrow functions mapped over \<^verbatim>\<open>param.properties\<close> and \<^verbatim>\<open>param.elements\<close>.\<close>

definition objectPatternProperty :: "jsval \<Rightarrow> error + jsval" where
  "objectPatternProperty p =
     (if isType ''ObjectProperty'' p then
        bindE (getProp (getv p ''value'') ''typeAnnotation'') (\<lambda>ta.
        bindE (extractTypeAnnotation ta) (\<lambda>ty.
        Inr (JObj [(''name'', if isType ''Identifier'' (getv p ''key'')
                             then getv (getv p ''key'') ''name'' else JStr ''computed''),
                   (''type'', ty)])))
      else Inr (JObj [(''name'', JStr ''rest'')]))"

definition arrayPatternElement :: "jsval \<Rightarrow> error + jsval" where
  "arrayPatternElement element =
     (if truthy element \<and> isType ''Identifier'' element then
        bindE (extractTypeAnnotation (getv element ''typeAnnotation'')) (\<lambda>ty.
        Inr (JObj [(''name'', getv element ''name''), (''type'', ty)]))
      else Inr JNull)"

definition extractParamInfo :: "jsval \<Rightarrow> error + jsval" where
  "extractParamInfo param =
     (if isType ''Identifier'' param then
        bindE (extractTypeAnnotation (getv param ''typeAnnotation'')) (\<lambda>ty.
        Inr (JObj [(''name'', getv param ''name''), (''type'', ty)]))
      else if isType ''AssignmentPattern'' param then
        bindE (getProp (getv param ''left'') ''typeAnnotation'') (\<lambda>ta.
        bindE (extractTypeAnnotation ta) (\<lambda>ty.
        Inr (JObj [(''name'', if isType ''Identifier'' (getv param ''left'')
                             then getv (getv param ''left'') ''name'' else JStr ''destructured''),
                   (''hasDefault'', JBool True),
                   (''type'', ty)])))
      else if isType ''ObjectPattern'' param then
        bindE (js_map objectPatternProperty (getv param ''properties'')) (\<lambda>ps.
        Inr (JObj [(''name'', JStr ''objectPattern''), (''properties'', ps)]))
      else if isType ''ArrayPattern'' param then
        bindE (js_map arrayPatternElement (getv param ''elements'')) (\<lambda>es.
        Inr (JObj [(''name'', JStr ''arrayPattern''), (''elements'', filterBoolean es)]))
      else if isType ''RestElement'' param then
        bindE (extractTypeAnnotation (getv param ''typeAnnotation'')) (\<lambda>ty.
        Inr (JObj [(''name'', if isType ''Identifier'' (getv param ''argument'')
                             then JStr (''...'' @ toStr (getv (getv param ''argument'') ''name''))
                             else JStr ''...rest''),
                   (''type'', ty)]))
      else Inr (JObj [(''name'', JStr ''unknown'')]))"

definition extractLocation :: "jsval \<Rightarrow> error + jsval" where
  "extractLocation loc =
     (if \<not> truthy loc then Inr JNull
      else
        bindE (getProp (getv loc ''start'') ''line'') (\<lambda>sl.
        bindE (getProp (getv loc ''start'') ''column'') (\<lambda>sc.
        bindE (getProp (getv loc ''end'') ''line'') (\<lambda>el.
        bindE (getProp (getv loc ''end'') ''column'') (\<lambda>ec.
        Inr (JObj [(''start'', JObj [(''line'', sl), (''column'', sc)]),
                   (''end'', JObj [(''line'', el), (''column'', ec)])]))))))"

section \<open>Symbol extraction (parser.js, parseFile)\<close>

text \<open>
  The visitor handlers, one per node kind, named as in the source. Each takes the visited
  node (\<^verbatim>\<open>path.node\<close>) and the metadata accumulated so far.
\<close>

definition pushSymbol :: "metadata \<Rightarrow> obj \<Rightarrow> error + metadata" where
  "pushSymbol md s =
     (case symbols md of Some xs \<Rightarrow> Inr (md\<lparr>symbols := Some (xs @ [s])\<rparr>) | None \<Rightarrow> Inl TypeError)"

definition pushDependency :: "metadata \<Rightarrow> obj \<Rightarrow> error + metadata" where
  "pushDependency md d =
     (case dependencies md of Some xs \<Rightarrow> Inr (md\<lparr>dependencies := Some (xs @ [d])\<rparr>)
      | None \<Rightarrow> Inl TypeError)"

definition importSpecifier :: "jsval \<Rightarrow> error + jsval" where
  "importSpecifier spec =
     (if isType ''ImportDefaultSpecifier'' spec then
        bindE (getProp (getv spec ''local'') ''name'') (\<lambda>l.
        Inr (JObj [(''type'', JStr ''default''), (''local'', l)]))
      else if isType ''ImportNamespaceSpecifier'' spec then
        bindE (getProp (getv spec ''local'') ''name'') (\<lambda>l.
        Inr (JObj [(''type'', JStr ''namespace''), (''local'', l)]))
      else
        bindE (getProp spec ''local'') (\<lambda>local.
        bindE (getProp local ''name'') (\<lambda>l.
        bindE (if truthy (getv spec ''imported'')
               then Inr (getv (getv spec ''imported'') ''name'') else Inr l) (\<lambda>i.
        Inr (JObj [(''type'', JStr ''named''), (''local'', l), (''imported'', i)])))))"

definition ImportDeclaration :: "jsval \<Rightarrow> metadata \<Rightarrow> error + metadata" where
  "ImportDeclaration node md =
     bindE (getProp (getv node ''source'') ''value'') (\<lambda>source.
     bindE (js_map importSpecifier (getv node ''specifiers'')) (\<lambda>specifiers.
     pushDependency md [(''type'', JStr ''import''), (''source'', source),
                        (''specifiers'', specifiers)]))"

definition CallExpression :: "jsval \<Rightarrow> metadata \<Rightarrow> error + metadata" where
  "CallExpression node md =
     (if isType ''Identifier'' (getv node ''callee'')
         \<and> getv (getv node ''callee'') ''name'' = JStr ''require'' then
        bindE (js_length (getv node ''arguments'')) (\<lambda>n.
        if n = JNum 1 then
          bindE (js_first (getv node ''arguments'')) (\<lambda>arg.
          if isType ''StringLiteral'' arg
          then pushDependency md [(''type'', JStr ''require''), (''source'', getv arg ''value'')]
          else Inr md)
        else Inr md)
      else Inr md)"

definition FunctionDeclaration :: "jsval \<Rightarrow> metadata \<Rightarrow> error + metadata" where
  "FunctionDeclaration node md =
     (if truthy (getv node ''id'') then
        bindE (js_map extractParamInfo (getv node ''params'')) (\<lambda>params.
        bindE (extractTypeAnnotation (getv node ''returnType'')) (\<lambda>returnType.
        bindE (extractLocation (getv node ''loc'')) (\<lambda>loc.
        pushSymbol md [(''name'', getv (getv node ''id'') ''name''), (''type'', JStr ''fn''),
                       (''params'', params), (''returnType'', returnType), (''loc'', loc)])))
      else Inr md)"

definition VariableDeclarator :: "jsval \<Rightarrow> metadata \<Rightarrow> error + metadata" where
  "VariableDeclarator node md =
     (if truthy (getv node ''id'') \<and> isType ''Identifier'' (getv node ''id'')
         \<and> truthy (getv node ''init'') then
        if isType ''ArrowFunctionExpression'' (getv node ''init'')
           \<or> isType ''FunctionExpression'' (getv node ''init'') then
          bindE (js_map extractParamInfo (getv (getv node ''init'') ''params'')) (\<lambda>params.
          bindE (extractTypeAnnotation (getv (getv node ''init'') ''returnType'')) (\<lambda>returnType.
          bindE (extractLocation (getv node ''loc'')) (\<lambda>loc.
          pushSymbol md [(''name'', getv (getv node ''id'') ''name''), (''type'', JStr ''fn''),
                         (''params'', params), (''returnType'', returnType), (''loc'', loc)])))
        else if \<not> isType ''ArrowFunctionExpression'' (getv node ''init'')
                \<and> \<not> isType ''FunctionExpression'' (getv node ''init'') then
          bindE (extractLocation (getv node ''loc'')) (\<lambda>loc.
          pushSymbol md [(''name'', getv (getv node ''id'') ''name''), (''type'', JStr ''const''),
                         (''loc'', loc)])
        else Inr md
      else Inr md)"

definition memberName :: "jsval \<Rightarrow> jsval" where
  "memberName key =
     (if isType ''Identifier'' key then getv key ''name''
      else if isType ''StringLiteral'' key then getv key ''value''
      else JStr ''computed'')"

definition classMember :: "jsval \<Rightarrow> jsval list \<times> jsval list \<Rightarrow> error + jsval list \<times> jsval list" where
  "classMember member fm =
     (if isType ''ClassMethod'' member then
        bindE (js_map extractParamInfo (getv member ''params'')) (\<lambda>params.
        bindE (extractTypeAnnotation (getv member ''returnType'')) (\<lambda>returnType.
        bindE (extractLocation (getv member ''loc'')) (\<lambda>loc.
        Inr (fst fm, snd fm @
               [JObj [(''name'', memberName (getv member ''key'')),
                      (''static'', getv member ''static''),
                      (''kind'', getv member ''kind''),
                      (''params'', params), (''returnType'', returnType), (''loc'', loc)]]))))
      else if isType ''ClassProperty'' member then
        bindE (extractTypeAnnotation (getv member ''typeAnnotation'')) (\<lambda>ty.
        bindE (extractLocation (getv member ''loc'')) (\<lambda>loc.
        Inr (fst fm @
               [JObj [(''name'', memberName (getv member ''key'')),
                      (''static'', getv member ''static''),
                      (''type'', ty), (''loc'', loc)]], snd fm)))
      else Inr fm)"

definition ClassDeclaration :: "jsval \<Rightarrow> metadata \<Rightarrow> error + metadata" where
  "ClassDeclaration node md =
     (if truthy (getv node ''id'') then
        bindE (extractLocation (getv node ''loc'')) (\<lambda>loc.
        bindE (getProp (getv node ''body'') ''body'') (\<lambda>members.
        bindE (js_forEach classMember members ([], [])) (\<lambda>fm.
        pushSymbol md
          ([(''name'', getv (getv node ''id'') ''name''), (''type'', JStr ''class''),
            (''fields'', JArr (fst fm)), (''methods'', JArr (snd fm)), (''loc'', loc)]
           @ (if truthy (getv node ''superClass'') \<and> isType ''Identifier'' (getv node ''superClass'')
              then [(''extends'', getv (getv node ''superClass'') ''name'')] else [])))))
      else Inr md)"

definition exportSpecifier :: "jsval \<Rightarrow> metadata \<Rightarrow> error + metadata" where
  "exportSpecifier specifier md =
     bindE (getProp specifier ''exported'') (\<lambda>exported.
     bindE (getProp exported ''name'') (\<lambda>name.
     bindE (getProp (getv specifier ''local'') ''name'') (\<lambda>localName.
     bindE (extractLocation (getv specifier ''loc'')) (\<lambda>loc.
     pushSymbol md [(''name'', name), (''localName'', localName), (''type'', JStr ''export''),
                    (''loc'', loc)]))))"

definition ExportNamedDeclaration :: "jsval \<Rightarrow> metadata \<Rightarrow> error + metadata" where
  "ExportNamedDeclaration node md =
     (if truthy (getv node ''declaration'') then Inr md
      else js_forEach exportSpecifier (getv node ''specifiers'') md)"

definition ExportDefaultDeclaration :: "jsval \<Rightarrow> metadata \<Rightarrow> error + metadata" where
  "ExportDefaultDeclaration node md = Inr (md\<lparr>hasDefaultExport := Some True\<rparr>)"

definition visit :: "jsval \<Rightarrow> metadata \<Rightarrow> error + metadata" where
  "visit node md =
     (if isType ''ImportDeclaration'' node then ImportDeclaration node md
      else if isType ''CallExpression'' node then CallExpression node md
      else if isType ''FunctionDeclaration'' node then FunctionDeclaration node md
      else if isType ''VariableDeclarator'' node then VariableDeclarator node md
      else if isType ''ClassDeclaration'' node then ClassDeclaration node md
      else if isType ''ExportNamedDeclaration'' node then ExportNamedDeclaration node md
      else if isType ''ExportDefaultDeclaration'' node then ExportDefaultDeclaration node md
      else Inr md)"

subsection \<open>The traversal\<close>

text \<open>
  \<^verbatim>\<open>traverse\<close> belongs to the syntax-tree library. It walks the tree depth first; the
  children of a node are the values of the fields its table \<^verbatim>\<open>VISITOR_KEYS\<close> lists for the
  node's kind, in that order, an array-valued field contributing its non-null elements. A
  handler given as a plain function runs when its node is entered, before the node's
  children. No handler of \<^verbatim>\<open>parseFile\<close> skips, stops or rewrites, so the walk is the fold of
  \<open>visit\<close> over the nodes in pre-order. The root itself is not visited, its children are.
  The table is a parameter.
\<close>

definition childNodes :: "jsval \<Rightarrow> jsval list" where
  "childNodes v = (case v of JArr xs \<Rightarrow> filter truthy xs | _ \<Rightarrow> if truthy v then [v] else [])"

definition children :: "(string \<Rightarrow> string list) \<Rightarrow> jsval \<Rightarrow> jsval list" where
  "children vk node =
     (case getv node ''type'' of
        JStr ty \<Rightarrow> concat (map (\<lambda>k. childNodes (getv node k)) (vk ty))
      | _ \<Rightarrow> [])"

lemma size_childNodes: "x \<in> set (childNodes v) \<Longrightarrow> size x \<le> size v"
proof (cases v)
  case (JArr xs)
  assume "x \<in> set (childNodes v)"
  with JArr have "x \<in> set xs" by (simp add: childNodes_def)
  then have "size x < size (JArr xs)" by (rule size_elem)
  with JArr show ?thesis by simp
qed (auto simp: childNodes_def split: if_splits)

lemma size_children:
  assumes "x \<in> set (children vk node)"
  shows "size x < size node"
proof -
  from assms obtain kvs where node: "node = JObj kvs"
    by (cases node) (auto simp: children_def)
  with assms obtain k where "x \<in> set (childNodes (field kvs k))"
    by (auto simp: children_def split: jsval.splits)
  then have "size x \<le> size (field kvs k)" by (rule size_childNodes)
  also have "\<dots> < size (JObj kvs)" by (rule size_field)
  finally show ?thesis using node by simp
qed

function preorder :: "(string \<Rightarrow> string list) \<Rightarrow> jsval \<Rightarrow> jsval list" where
  "preorder vk node = node # concat (map (preorder vk) (children vk node))"
  by pat_completeness auto
termination
  by (relation "measure (\<lambda>(vk, node). size node)") (auto simp: size_children)

declare preorder.simps [simp del]

definition traverse :: "(string \<Rightarrow> string list) \<Rightarrow> jsval \<Rightarrow> jsval list" where
  "traverse vk ast = concat (map (preorder vk) (children vk ast))"

definition extractMetadata :: "(string \<Rightarrow> string list) \<Rightarrow> jsval \<Rightarrow> error + metadata" where
  "extractMetadata vk ast =
     foldE visit (traverse vk ast) \<lparr>symbols = Some [], dependencies = Some [], hasDefaultExport = None\<rparr>"

subsection \<open>parseFile\<close>

text \<open>
  The parser is the other half of the library: \<^verbatim>\<open>parser.parse(content, {plugins})\<close> returns
  the \<^verbatim>\<open>File\<close> node or throws an error carrying a position \<^verbatim>\<open>loc\<close> (\<open>Inl loc\<close>). Whatever is
  thrown inside the \<^verbatim>\<open>try\<close> block is rethrown as a \<^verbatim>\<open>ParseError\<close> with the file path and
  \<^verbatim>\<open>err.loc || null\<close>.
\<close>

definition endsWith :: "string \<Rightarrow> string \<Rightarrow> bool" where
  "endsWith s suffix = (length suffix \<le> length s \<and> drop (length s - length suffix) s = suffix)"

definition plugins :: "string \<Rightarrow> string list" where
  "plugins file =
     (if endsWith file ''.ts'' \<or> endsWith file ''.tsx'' then [''typescript''] else [])
     @ (if endsWith file ''.jsx'' \<or> endsWith file ''.tsx'' then [''jsx''] else [])
     @ [''classProperties'', ''classPrivateProperties'', ''decorators-legacy'']"

record babel =
  parse :: "string \<Rightarrow> string list \<Rightarrow> jsval + jsval"
  visitorKeys :: "string \<Rightarrow> string list"

definition parseFile :: "babel \<Rightarrow> string \<Rightarrow> string \<Rightarrow> error + metadata" where
  "parseFile B content file =
     (case parse B content (plugins file) of
        Inl loc \<Rightarrow> Inl (ParseError file (if truthy loc then loc else JNull))
      | Inr ast \<Rightarrow>
          (case extractMetadata (visitorKeys B) ast of
             Inl e \<Rightarrow> Inl (ParseError file JNull)
           | Inr md \<Rightarrow> Inr md))"

subsection \<open>Example trees\<close>

text \<open>
  The visitor keys of the node kinds that occur in the examples, and the trees of the
  example source texts, with the fields the extractor and the traversal read.
\<close>

definition babelVisitorKeys :: "string \<Rightarrow> string list" where
  "babelVisitorKeys ty =
     (if ty = ''File'' then [''program'']
      else if ty = ''Program'' then [''directives'', ''body'']
      else if ty = ''VariableDeclaration'' then [''declarations'']
      else if ty = ''VariableDeclarator'' then [''id'', ''init'']
      else if ty = ''CallExpression''
        then [''callee'', ''arguments'', ''typeParameters'', ''typeArguments'']
      else if ty = ''Identifier'' then [''typeAnnotation'', ''decorators'']
      else if ty = ''ExportNamedDeclaration'' then [''declaration'', ''specifiers'', ''source'']
      else if ty = ''ExportDefaultDeclaration'' then [''declaration'']
      else if ty = ''FunctionDeclaration''
        then [''id'', ''typeParameters'', ''params'', ''predicate'', ''returnType'', ''body'']
      else if ty = ''BlockStatement'' then [''directives'', ''body'']
      else if ty = ''ReturnStatement'' then [''argument'']
      else if ty = ''BinaryExpression'' then [''left'', ''right'']
      else if ty = ''TSTypeAnnotation'' then [''typeAnnotation'']
      else [])"

definition ident :: "string \<Rightarrow> jsval" where
  "ident name = JObj [(''type'', JStr ''Identifier''), (''name'', JStr name)]"

definition span :: "int \<Rightarrow> int \<Rightarrow> int \<Rightarrow> int \<Rightarrow> jsval" where
  "span l1 c1 l2 c2 =
     JObj [(''start'', JObj [(''line'', JNum l1), (''column'', JNum c1)]),
           (''end'', JObj [(''line'', JNum l2), (''column'', JNum c2)])]"

definition program :: "jsval list \<Rightarrow> jsval" where
  "program body =
     JObj [(''type'', JStr ''File''),
           (''program'', JObj [(''type'', JStr ''Program''), (''sourceType'', JStr ''module''),
                               (''body'', JArr body), (''directives'', JArr [])])]"

text \<open>A function symbol with untyped result and a parameter without annotation, as emitted.\<close>

definition fnSymbol :: "string \<Rightarrow> jsval list \<Rightarrow> jsval \<Rightarrow> obj" where
  "fnSymbol name params loc =
     [(''name'', JStr name), (''type'', JStr ''fn''), (''params'', JArr params),
      (''returnType'', JStr ''any''), (''loc'', loc)]"

definition anyParam :: "string \<Rightarrow> jsval" where
  "anyParam name = JObj [(''name'', JStr name), (''type'', JStr ''any'')]"

text \<open>\<^verbatim>\<open>const x = require('path')\<close>\<close>

definition requireSource :: string where
  "requireSource = ''const x = require('path')''"

definition requireExample :: jsval where
  "requireExample = program
     [JObj [(''type'', JStr ''VariableDeclaration''), (''kind'', JStr ''const''),
            (''declarations'', JArr
              [JObj [(''type'', JStr ''VariableDeclarator''),
                     (''loc'', span 1 6 1 25),
                     (''id'', ident ''x''),
                     (''init'', JObj [(''type'', JStr ''CallExpression''),
                                      (''callee'', ident ''require''),
                                      (''arguments'', JArr [JObj [(''type'', JStr ''StringLiteral''),
                                                                  (''value'', JStr ''path'')]])])]])]]"

text \<open>\<^verbatim>\<open>export function add(a, b) { return a + b; }\<close>\<close>

definition addSource :: string where
  "addSource = ''export function add(a, b) { return a + b; }''"

definition addBody :: jsval where
  "addBody = JObj [(''type'', JStr ''BlockStatement''), (''directives'', JArr []),
       (''body'', JArr [JObj [(''type'', JStr ''ReturnStatement''),
           (''argument'', JObj [(''type'', JStr ''BinaryExpression''), (''operator'', JStr ''+''),
                                (''left'', ident ''a''), (''right'', ident ''b'')])]])]"

definition addExample :: jsval where
  "addExample = program
     [JObj [(''type'', JStr ''ExportNamedDeclaration''),
            (''specifiers'', JArr []),
            (''source'', JNull),
            (''declaration'',
               JObj [(''type'', JStr ''FunctionDeclaration''),
                     (''loc'', span 1 7 1 43),
                     (''id'', ident ''add''),
                     (''generator'', JBool False), (''async'', JBool False),
                     (''params'', JArr [ident ''a'', ident ''b'']),
                     (''body'', addBody)])]]"

text \<open>
  Two lines: \<^verbatim>\<open>function outer() { function inner() {} }\<close> and
  \<^verbatim>\<open>export default function () {}\<close>.
\<close>

definition emptyBlock :: jsval where
  "emptyBlock = JObj [(''type'', JStr ''BlockStatement''), (''directives'', JArr []),
                      (''body'', JArr [])]"

definition nestedExample :: jsval where
  "nestedExample = program
     [JObj [(''type'', JStr ''FunctionDeclaration''),
            (''loc'', span 1 0 1 40),
            (''id'', ident ''outer''),
            (''params'', JArr []),
            (''body'', JObj [(''type'', JStr ''BlockStatement''), (''directives'', JArr []),
               (''body'', JArr [JObj [(''type'', JStr ''FunctionDeclaration''),
                                      (''loc'', span 1 19 1 38),
                                      (''id'', ident ''inner''),
                                      (''params'', JArr []),
                                      (''body'', emptyBlock)]])])],
      JObj [(''type'', JStr ''ExportDefaultDeclaration''),
            (''declaration'', JObj [(''type'', JStr ''FunctionDeclaration''),
                                    (''loc'', span 2 15 2 29),
                                    (''id'', JNull),
                                    (''params'', JArr []),
                                    (''body'', emptyBlock)])]]"

text \<open>
  The TypeScript file f.ts with the one line \<^verbatim>\<open>function f(a: string) {}\<close>: the annotation
  \<^verbatim>\<open>: string\<close>, the parameter that carries it, and the tree of the file.
\<close>

definition stringAnnotation :: jsval where
  "stringAnnotation = JObj [(''type'', JStr ''TSTypeAnnotation''),
     (''typeAnnotation'', JObj [(''type'', JStr ''TSStringKeyword'')])]"

definition annotatedParam :: jsval where
  "annotatedParam = JObj [(''type'', JStr ''Identifier''), (''name'', JStr ''a''),
                          (''typeAnnotation'', stringAnnotation)]"

definition annotatedSource :: string where
  "annotatedSource = ''function f(a: string) {}''"

definition annotatedExample :: jsval where
  "annotatedExample = program
     [JObj [(''type'', JStr ''FunctionDeclaration''),
            (''loc'', span 1 0 1 24),
            (''id'', ident ''f''),
            (''params'', JArr [annotatedParam]),
            (''body'', emptyBlock)]]"

text \<open>A parameter node of none of the five shapes: \<^verbatim>\<open>private x\<close> in a constructor.\<close>

definition propertyParam :: jsval where
  "propertyParam = JObj [(''type'', JStr ''TSParameterProperty''),
     (''accessibility'', JStr ''private''), (''parameter'', ident ''x'')]"

section \<open>Manifest builder (manifestBuilder.js, buildManifest)\<close>

record fileData =
  filePath :: string
  metadata :: metadata

text \<open>
  The argument \<^verbatim>\<open>parsedFiles\<close> is dynamically typed, and \<^verbatim>\<open>buildManifest\<close> first asks
  \<^verbatim>\<open>Array.isArray(parsedFiles)\<close>: the argument is either something that is not an array, or
  the array of file results.
\<close>

datatype parsedFilesArg =
    NotAnArray
  | FileResults "fileData list"

record fileManifest =
  path :: string
  filename :: string
  file_symbols :: "obj list"
  file_dependencies :: "obj list"
  file_hasDefaultExport :: bool

record typeStats =
  ts_functions :: nat
  ts_classes :: nat
  ts_constants :: nat
  ts_exports :: nat

record stats =
  totalFiles :: nat
  totalSymbols :: nat
  totalDependencies :: nat
  typeStats :: typeStats

record manifest =
  version :: string
  generated :: string
  rootPath :: string
  files :: "fileManifest list"
  stats :: stats

text \<open>
  The host functions \<^verbatim>\<open>buildManifest\<close> calls: Node's \<^verbatim>\<open>path.basename\<close> and
  \<^verbatim>\<open>path.relative\<close>, and the clock read by \<^verbatim>\<open>new Date().toISOString()\<close>.
\<close>

record host =
  path_basename :: "string \<Rightarrow> string"
  path_relative :: "string \<Rightarrow> string \<Rightarrow> string"
  date_now :: string

text \<open>The body of \<^verbatim>\<open>fileManifest.symbols.forEach\<close>: one counter per recognised kind.\<close>

definition countSymbol :: "obj \<Rightarrow> typeStats \<Rightarrow> typeStats" where
  "countSymbol symbol ts =
     (if field symbol ''type'' = JStr ''fn'' then ts\<lparr>ts_functions := ts_functions ts + 1\<rparr>
      else if field symbol ''type'' = JStr ''class'' then ts\<lparr>ts_classes := ts_classes ts + 1\<rparr>
      else if field symbol ''type'' = JStr ''const'' then ts\<lparr>ts_constants := ts_constants ts + 1\<rparr>
      else if field symbol ''type'' = JStr ''export'' then ts\<lparr>ts_exports := ts_exports ts + 1\<rparr>
      else ts)"

text \<open>The body of \<^verbatim>\<open>parsedFiles.forEach\<close>, on the manifest built so far.\<close>

definition processFile :: "host \<Rightarrow> string \<Rightarrow> fileData \<Rightarrow> manifest \<Rightarrow> manifest" where
  "processFile h root fileData m =
     (let fm = \<lparr>path = path_relative h root (filePath fileData),
                filename = path_basename h (filePath fileData),
                file_symbols = (case symbols (metadata fileData) of Some s \<Rightarrow> s | None \<Rightarrow> []),
                file_dependencies =
                  (case dependencies (metadata fileData) of Some d \<Rightarrow> d | None \<Rightarrow> []),
                file_hasDefaultExport =
                  (case hasDefaultExport (metadata fileData) of Some b \<Rightarrow> b | None \<Rightarrow> False)\<rparr>;
          st = stats m;
          st1 = st\<lparr>totalSymbols := totalSymbols st + length (file_symbols fm)\<rparr>;
          st2 = st1\<lparr>totalDependencies := totalDependencies st1 + length (file_dependencies fm)\<rparr>;
          st3 = st2\<lparr>typeStats := fold countSymbol (file_symbols fm) (typeStats st2)\<rparr>
      in m\<lparr>stats := st3, files := files m @ [fm]\<rparr>)"

definition initialManifest :: "host \<Rightarrow> string \<Rightarrow> nat \<Rightarrow> manifest" where
  "initialManifest h root n =
     \<lparr>version = ''1.0.0'', generated = date_now h, rootPath = root, files = [],
      stats = \<lparr>totalFiles = n, totalSymbols = 0, totalDependencies = 0,
               typeStats = \<lparr>ts_functions = 0, ts_classes = 0, ts_constants = 0, ts_exports = 0\<rparr>\<rparr>\<rparr>"

definition buildManifest :: "host \<Rightarrow> parsedFilesArg \<Rightarrow> string \<Rightarrow> error + manifest" where
  "buildManifest h parsedFiles root =
     (case parsedFiles of
        NotAnArray \<Rightarrow> Inl (UserInputError ''No files to process'')
      | FileResults fs \<Rightarrow>
          if length fs = 0 then Inl (UserInputError ''No files to process'')
          else Inr (fold (processFile h root) fs (initialManifest h root (length fs))))"

section \<open>LLM simplification (manifestBuilder.js, optimizeForLLM)\<close>

text \<open>
  \<^verbatim>\<open>optimizeForLLM\<close> reads fields of whatever object it is given, and its own output is a
  legal input, so it is modelled on \<open>jsval\<close>. \<open>nameAndType\<close> is the arrow function
  \<^verbatim>\<open>e => ({name: e.name, type: e.type})\<close> mapped over \<^verbatim>\<open>properties\<close> and \<^verbatim>\<open>elements\<close>;
  \<open>patternList\<close> is the statement
  \<^verbatim>\<open>if (param.name === tag && param[key]) simplified[key] = param[key].map(...)\<close>, which
  \<^verbatim>\<open>simplifyParam\<close> has twice; \<open>simplifyParams\<close> is
  \<^verbatim>\<open>params ? params.map(simplifyParam) : []\<close>.
\<close>

definition nameAndType :: "jsval \<Rightarrow> error + jsval" where
  "nameAndType e =
     bindE (getProp e ''name'') (\<lambda>name.
     bindE (getProp e ''type'') (\<lambda>ty.
     Inr (JObj [(''name'', name), (''type'', ty)])))"

definition patternList :: "jsval \<Rightarrow> jsval \<Rightarrow> string \<Rightarrow> string \<Rightarrow> error + obj" where
  "patternList param name tag key =
     (if name = JStr tag
      then bindE (getProp param key) (\<lambda>xs.
             if truthy xs
             then bindE (js_map nameAndType xs) (\<lambda>ys. Inr [(key, ys)])
             else Inr [])
      else Inr [])"

definition simplifyParam :: "jsval \<Rightarrow> error + jsval" where
  "simplifyParam param =
     (if \<not> truthy param then Inr JNull
      else
        bindE (getProp param ''name'') (\<lambda>name.
        bindE (getProp param ''type'') (\<lambda>ty.
        bindE (getProp param ''hasDefault'') (\<lambda>hasDefault.
        bindE (patternList param name ''objectPattern'' ''properties'') (\<lambda>props.
        bindE (patternList param name ''arrayPattern'' ''elements'') (\<lambda>elems.
        Inr (JObj ([(''name'', name), (''type'', ty)]
                   @ (if truthy hasDefault then [(''hasDefault'', JBool True)] else [])
                   @ props @ elems))))))))"

definition simplifyParams :: "jsval \<Rightarrow> error + jsval" where
  "simplifyParams params = (if truthy params then js_map simplifyParam params else Inr (JArr []))"

definition simplifyField :: "jsval \<Rightarrow> error + jsval" where
  "simplifyField f =
     bindE (getProp f ''name'') (\<lambda>name.
     bindE (getProp f ''type'') (\<lambda>ty.
     bindE (getProp f ''static'') (\<lambda>static.
     Inr (JObj [(''name'', name), (''type'', ty), (''static'', static)]))))"

definition simplifyMethod :: "jsval \<Rightarrow> error + jsval" where
  "simplifyMethod m =
     bindE (getProp m ''name'') (\<lambda>name.
     bindE (getProp m ''kind'') (\<lambda>kind.
     bindE (getProp m ''static'') (\<lambda>static.
     bindE (getProp m ''params'') (\<lambda>params.
     bindE (simplifyParams params) (\<lambda>ps.
     bindE (getProp m ''returnType'') (\<lambda>returnType.
     Inr (JObj [(''name'', name), (''kind'', kind), (''static'', static),
                (''params'', ps), (''returnType'', returnType)])))))))"

definition simplifySymbol :: "jsval \<Rightarrow> error + jsval" where
  "simplifySymbol symbol =
     bindE (getProp symbol ''name'') (\<lambda>name.
     bindE (getProp symbol ''type'') (\<lambda>ty.
     if ty = JStr ''fn'' then
       bindE (getProp symbol ''params'') (\<lambda>params.
       bindE (simplifyParams params) (\<lambda>ps.
       bindE (getProp symbol ''returnType'') (\<lambda>returnType.
       Inr (JObj [(''name'', name), (''type'', ty), (''params'', ps),
                  (''returnType'', returnType)]))))
     else if ty = JStr ''class'' then
       bindE (getProp symbol ''fields'') (\<lambda>fields.
       bindE (if truthy fields then js_map simplifyField fields else Inr (JArr [])) (\<lambda>fs.
       bindE (getProp symbol ''methods'') (\<lambda>methods.
       bindE (if truthy methods then js_map simplifyMethod methods else Inr (JArr [])) (\<lambda>ms.
       bindE (getProp symbol ''extends'') (\<lambda>extends.
       Inr (JObj ([(''name'', name), (''type'', ty), (''fields'', fs), (''methods'', ms)]
                  @ (if truthy extends then [(''extends'', extends)] else []))))))))
     else if ty = JStr ''export'' then
       bindE (getProp symbol ''localName'') (\<lambda>localName.
       Inr (JObj [(''name'', name), (''type'', ty), (''localName'', localName)]))
     else Inr (JObj [(''name'', name), (''type'', ty)])))"

definition simplifyFile :: "jsval \<Rightarrow> error + jsval" where
  "simplifyFile file =
     bindE (getProp file ''path'') (\<lambda>p.
     bindE (getProp file ''symbols'') (\<lambda>syms.
     bindE (js_map simplifySymbol syms) (\<lambda>ss.
     bindE (getProp file ''dependencies'') (\<lambda>deps.
     bindE (getProp file ''hasDefaultExport'') (\<lambda>hde.
     Inr (JObj [(''path'', p), (''symbols'', ss), (''dependencies'', deps),
                (''hasDefaultExport'', hde)]))))))"

definition optimizeForLLM :: "jsval \<Rightarrow> error + jsval" where
  "optimizeForLLM manifest =
     bindE (getProp manifest ''version'') (\<lambda>v.
     bindE (getProp manifest ''files'') (\<lambda>files.
     bindE (js_map simplifyFile files) (\<lambda>fs.
     Inr (JObj [(''version'', v), (''files'', fs)]))))"

section \<open>String interning (manifestBuilder.js, optimizeManifest)\<close>

text \<open>
  The two closed-over variables \<^verbatim>\<open>stringTable\<close> and \<^verbatim>\<open>stringMap\<close> are the state, threaded
  through the recursion in the order the source visits array items and object entries.
\<close>

record intern_state =
  stringTable :: "string list"
  stringMap :: "string \<rightharpoonup> nat"

definition internString :: "intern_state \<Rightarrow> jsval \<Rightarrow> jsval \<times> intern_state" where
  "internString st str =
     (case str of
        JStr s \<Rightarrow>
          (let st' = (if stringMap st s = None
                      then st\<lparr>stringTable := stringTable st @ [s],
                             stringMap := (stringMap st)(s \<mapsto> length (stringTable st))\<rparr>
                      else st)
           in (JObj [(''$ref'', case stringMap st' s of Some i \<Rightarrow> JNum (int i)
                                | None \<Rightarrow> JUndefined)], st'))
      | _ \<Rightarrow> (str, st))"

definition excluded :: "string \<Rightarrow> bool" where
  "excluded key = (key = ''version'' \<or> key = ''generated'' \<or> key = ''rootPath'')"

fun is_string :: "jsval \<Rightarrow> bool" where
  "is_string (JStr s) = True"
| "is_string v = False"

text \<open>
  Values carry the own fields of an object. The assignment \<^verbatim>\<open>result[key] = value\<close> creates
  the own field \<open>key\<close> of \<open>result\<close>, but for the one key \<^verbatim>\<open>__proto__\<close>: there it runs the
  setter of the prototype and creates no own field. The right-hand side is evaluated
  first, so the strings of such an entry still enter the table.
\<close>

fun processObject :: "intern_state \<Rightarrow> jsval \<Rightarrow> jsval \<times> intern_state"
  and processItems :: "intern_state \<Rightarrow> jsval list \<Rightarrow> jsval list \<times> intern_state"
  and processEntries :: "intern_state \<Rightarrow> obj \<Rightarrow> obj \<times> intern_state"
where
  "processObject st (JArr xs) = (let (ys, st') = processItems st xs in (JArr ys, st'))"
| "processObject st (JObj kvs) = (let (kvs', st') = processEntries st kvs in (JObj kvs', st'))"
| "processObject st v = (v, st)"
| "processItems st [] = ([], st)"
| "processItems st (x # xs) =
     (let (y, st1) = processObject st x; (ys, st2) = processItems st1 xs in (y # ys, st2))"
| "processEntries st [] = ([], st)"
| "processEntries st ((key, v) # rest) =
     (let (v', st1) =
        (if excluded key then (v, st)
         else if is_string v then internString st v
         else processObject st v);
          (rest', st2) = processEntries st1 rest
      in (if key = ''__proto__'' then rest' else (key, v') # rest', st2))"

text \<open>
  The manifest is an object, so \<^verbatim>\<open>processObject(manifest)\<close> is \<open>processEntries\<close> on its
  entries. \<^verbatim>\<open>{...optimized, stringTable}\<close> has the entries of \<open>optimized\<close>, then
  \<^verbatim>\<open>stringTable\<close>, which replaces an entry of that name where it stands.
\<close>

fun upsert :: "obj \<Rightarrow> string \<Rightarrow> jsval \<Rightarrow> obj" where
  "upsert [] k v = [(k, v)]"
| "upsert ((k', v') # rest) k v =
     (if k' = k then (k, v) # rest else (k', v') # upsert rest k v)"

definition emptyTable :: intern_state where
  "emptyTable = \<lparr>stringTable = [], stringMap = Map.empty\<rparr>"

definition optimizeManifest :: "obj \<Rightarrow> obj" where
  "optimizeManifest manifest =
     (let (optimized, st) = processEntries emptyTable manifest
      in upsert optimized ''stringTable'' (JArr (map JStr (stringTable st))))"

text \<open>
  A manifest of the shape \<^verbatim>\<open>buildManifest\<close> gives (one file, the function symbol of the
  second example), with one field more: \<^verbatim>\<open>build\<close> in the file entry, an object that has a
  field named \<^verbatim>\<open>version\<close> below the top level.
\<close>

definition sampleManifest :: obj where
  "sampleManifest =
     [(''version'', JStr ''1.0.0''),
      (''generated'', JStr ''2025-01-01T00:00:00.000Z''),
      (''rootPath'', JStr ''/project''),
      (''files'', JArr
         [JObj [(''path'', JStr ''math.js''), (''filename'', JStr ''math.js''),
                (''symbols'', JArr
                   [JObj [(''name'', JStr ''add''), (''type'', JStr ''fn''),
                          (''params'', JArr [anyParam ''a'', anyParam ''b'']),
                          (''returnType'', JStr ''any''), (''loc'', span 1 7 1 43)]]),
                (''dependencies'', JArr []),
                (''hasDefaultExport'', JBool False),
                (''build'', JObj [(''version'', JStr ''any''), (''tool'', JStr ''math.js'')])]]),
      (''stats'', JObj [(''totalFiles'', JNum 1), (''totalSymbols'', JNum 1),
                        (''totalDependencies'', JNum 0),
                        (''typeStats'', JObj [(''functions'', JNum 1), (''classes'', JNum 0),
                                              (''constants'', JNum 0), (''exports'', JNum 0)])])]"

section \<open>Notions the properties are stated with\<close>

subsection \<open>Function symbols and the declarations they come from\<close>

definition symbolsOf :: "metadata \<Rightarrow> obj list" where
  "symbolsOf md = (case symbols md of Some xs \<Rightarrow> xs | None \<Rightarrow> [])"

definition fnNamesOf :: "obj list \<Rightarrow> jsval list" where
  "fnNamesOf xs = map (\<lambda>s. field s ''name'') (filter (\<lambda>s. field s ''type'' = JStr ''fn'') xs)"

definition declaresFunction :: "jsval \<Rightarrow> bool" where
  "declaresFunction node =
     ((isType ''FunctionDeclaration'' node \<and> truthy (getv node ''id''))
      \<or> (isType ''VariableDeclarator'' node \<and> isType ''Identifier'' (getv node ''id'')
          \<and> (isType ''ArrowFunctionExpression'' (getv node ''init'')
              \<or> isType ''FunctionExpression'' (getv node ''init''))))"

definition declaredName :: "jsval \<Rightarrow> jsval" where
  "declaredName node = getv (getv node ''id'') ''name''"

definition topLevel :: "jsval \<Rightarrow> jsval list" where
  "topLevel ast = (case getv (getv ast ''program'') ''body'' of JArr xs \<Rightarrow> xs | _ \<Rightarrow> [])"

subsection \<open>Totals of a manifest\<close>

definition symbolCount :: "manifest \<Rightarrow> nat" where
  "symbolCount m = sum_list (map (\<lambda>fm. length (file_symbols fm)) (files m))"

definition dependencyCount :: "manifest \<Rightarrow> nat" where
  "dependencyCount m = sum_list (map (\<lambda>fm. length (file_dependencies fm)) (files m))"

subsection \<open>Decoding an interned manifest\<close>

text \<open>
  The inverse the round-trip law speaks of: every reference object \<^verbatim>\<open>{$ref: i}\<close> is replaced
  by the \<open>i\<close>-th entry of the table. \<open>restore\<close> decodes a whole output against the
  \<^verbatim>\<open>stringTable\<close> it carries and drops that field. \<open>ref_free\<close> says that a value contains no
  object of the reference shape.
\<close>

fun is_ref :: "jsval \<Rightarrow> bool" where
  "is_ref (JObj [(k, JNum i)]) = (k = ''$ref'')"
| "is_ref v = False"

fun decode :: "jsval list \<Rightarrow> jsval \<Rightarrow> jsval"
  and decodeItems :: "jsval list \<Rightarrow> jsval list \<Rightarrow> jsval list"
  and decodeEntries :: "jsval list \<Rightarrow> obj \<Rightarrow> obj"
where
  "decode T (JArr xs) = JArr (decodeItems T xs)"
| "decode T (JObj kvs) =
     (if is_ref (JObj kvs)
      then (case field kvs ''$ref'' of
              JNum i \<Rightarrow> if 0 \<le> i \<and> nat i < length T then T ! nat i else JUndefined
            | _ \<Rightarrow> JUndefined)
      else JObj (decodeEntries T kvs))"
| "decode T v = v"
| "decodeItems T [] = []"
| "decodeItems T (x # xs) = decode T x # decodeItems T xs"
| "decodeEntries T [] = []"
| "decodeEntries T ((k, v) # rest) = (k, decode T v) # decodeEntries T rest"

definition removeKey :: "string \<Rightarrow> obj \<Rightarrow> obj" where
  "removeKey k kvs = filter (\<lambda>(k', v). k' \<noteq> k) kvs"

definition restore :: "obj \<Rightarrow> obj" where
  "restore out =
     (case field out ''stringTable'' of
        JArr T \<Rightarrow> decodeEntries T (removeKey ''stringTable'' out)
      | _ \<Rightarrow> out)"

fun ref_free :: "jsval \<Rightarrow> bool"
  and ref_free_items :: "jsval list \<Rightarrow> bool"
  and ref_free_entries :: "obj \<Rightarrow> bool"
where
  "ref_free (JArr xs) = ref_free_items xs"
| "ref_free (JObj kvs) = (\<not> is_ref (JObj kvs) \<and> ref_free_entries kvs)"
| "ref_free v = True"
| "ref_free_items [] = True"
| "ref_free_items (x # xs) = (ref_free x \<and> ref_free_items xs)"
| "ref_free_entries [] = True"
| "ref_free_entries ((k, v) # rest) = (ref_free v \<and> ref_free_entries rest)"

text \<open>\<open>proto_free\<close> says that no object of a value has a field named \<^verbatim>\<open>__proto__\<close>.\<close>

fun proto_free :: "jsval \<Rightarrow> bool"
  and proto_free_items :: "jsval list \<Rightarrow> bool"
  and proto_free_entries :: "obj \<Rightarrow> bool"
where
  "proto_free (JArr xs) = proto_free_items xs"
| "proto_free (JObj kvs) = proto_free_entries kvs"
| "proto_free v = True"
| "proto_free_items [] = True"
| "proto_free_items (x # xs) = (proto_free x \<and> proto_free_items xs)"
| "proto_free_entries [] = True"
| "proto_free_entries ((k, v) # rest) =
     (k \<noteq> ''__proto__'' \<and> proto_free v \<and> proto_free_entries rest)"

definition table_ok :: "intern_state \<Rightarrow> bool" where
  "table_ok st = (\<forall>s i. stringMap st s = Some i \<longrightarrow> i < length (stringTable st) \<and> stringTable st ! i = s)"

subsection \<open>Paths into a value, and the strings the transform interns\<close>

datatype step = Key string | Index nat

fun lookup_path :: "jsval \<Rightarrow> step list \<Rightarrow> jsval option" where
  "lookup_path v [] = Some v"
| "lookup_path (JObj kvs) (Key k # p) =
     (case map_of kvs k of None \<Rightarrow> None | Some v \<Rightarrow> lookup_path v p)"
| "lookup_path (JArr xs) (Index i # p) =
     (if i < length xs then lookup_path (xs ! i) p else None)"
| "lookup_path v (s # p) = None"

definition buildPath :: "step list" where
  "buildPath = [Key ''files'', Index 0, Key ''build'', Key ''version'']"

text \<open>
  The string values of fields that are not named \<^verbatim>\<open>version\<close>, \<^verbatim>\<open>generated\<close> or \<^verbatim>\<open>rootPath\<close>
  and do not lie below a field so named.
\<close>

fun internedStrings :: "jsval \<Rightarrow> string set"
  and internedItems :: "jsval list \<Rightarrow> string set"
  and internedEntries :: "obj \<Rightarrow> string set"
where
  "internedStrings (JArr xs) = internedItems xs"
| "internedStrings (JObj kvs) = internedEntries kvs"
| "internedStrings v = {}"
| "internedItems [] = {}"
| "internedItems (x # xs) = internedStrings x \<union> internedItems xs"
| "internedEntries [] = {}"
| "internedEntries ((key, v) # rest) =
     (if excluded key then {}
      else case v of JStr s \<Rightarrow> {s} | _ \<Rightarrow> internedStrings v) \<union> internedEntries rest"

section \<open>Properties of the type resolver and the parameter classifier\<close>

lemma bindE_Inr_iff: "bindE r f = Inr y \<longleftrightarrow> (\<exists>x. r = Inr x \<and> f x = Inr y)"
  by (cases r) auto

lemma getProp_obj [simp]: "getProp (JObj kvs) k = Inr (field kvs k)"
  by (simp add: getProp_def nullish_def)

lemma getProp_Inr: "getProp v k = Inr w \<Longrightarrow> w = getv v k"
  by (auto simp: getProp_def split: if_splits)

lemma js_map_result: "js_map f v = Inr w \<Longrightarrow> \<exists>ys. w = JArr ys"
  by (cases v) (auto simp: js_map_def bindE_Inr_iff)

lemma extractTypeAnnotation_absent:
  "\<not> truthy ta \<Longrightarrow> extractTypeAnnotation ta = Inr (JStr ''any'')"
  by (simp add: extractTypeAnnotation_def)

text \<open>
  Every annotation that is there and does not unwrap to a \<^verbatim>\<open>TSTypeAnnotation\<close> reaches the
  call that raises.
\<close>

lemma extractTypeAnnotation_unwrapped:
  "truthy ta \<Longrightarrow> \<not> isType ''TSTypeAnnotation'' (annotationOf ta)
     \<Longrightarrow> extractTypeAnnotation ta = Inl TypeError"
  by (simp add: extractTypeAnnotation_def isFlowTypeAnnotation_def)

text \<open>
  C9. Type annotation resolution is to be total, with \<open>"any"\<close> for an absent or unrecognised
  annotation and no error on any input. The code does resolve an absent annotation to
  \<open>"any"\<close>, but it raises on the annotation \<^verbatim>\<open>: string\<close> of the file f.ts as the parser gives
  it: the unwrapped node is the keyword type, not a \<^verbatim>\<open>TSTypeAnnotation\<close>, and the next test
  calls \<^verbatim>\<open>t.isFlowTypeAnnotation\<close>.
\<close>

theorem extractTypeAnnotation_string_raises:
  "extractTypeAnnotation stringAnnotation = Inl TypeError"
  by code_simp

lemma extractParamInfo_unknown:
  "\<not> isType ''Identifier'' p \<Longrightarrow> \<not> isType ''AssignmentPattern'' p
     \<Longrightarrow> \<not> isType ''ObjectPattern'' p \<Longrightarrow> \<not> isType ''ArrayPattern'' p
     \<Longrightarrow> \<not> isType ''RestElement'' p
     \<Longrightarrow> extractParamInfo p = Inr (JObj [(''name'', JStr ''unknown'')])"
  by (simp add: extractParamInfo_def)

lemma extractParamInfo_property:
  "extractParamInfo propertyParam = Inr (JObj [(''name'', JStr ''unknown'')])"
  by code_simp

text \<open>
  C8. The parameter classifier is to be total. A node of none of the five shapes does
  yield \<open>{name: "unknown"}\<close> without error (\<open>extractParamInfo_unknown\<close>), but on the
  parameter \<^verbatim>\<open>a: string\<close> of the file f.ts, an identifier, the classifier raises: the first
  branch matches and resolves the annotation, where the call of \<^verbatim>\<open>t.isFlowTypeAnnotation\<close>
  raises.
\<close>

theorem extractParamInfo_annotated_raises:
  "extractParamInfo annotatedParam = Inl TypeError"
  by code_simp

lemma isType_other: "isType a v \<Longrightarrow> isType b v = (a = b)"
  by (auto simp: isType_def)

section \<open>Properties of symbol extraction\<close>

lemma requireExample_result:
  "extractMetadata babelVisitorKeys requireExample =
     Inr \<lparr>symbols = Some [[(''name'', JStr ''x''), (''type'', JStr ''const''),
                            (''loc'', span 1 6 1 25)]],
          dependencies = Some [[(''type'', JStr ''require''), (''source'', JStr ''path'')]],
          hasDefaultExport = None\<rparr>"
  by code_simp

lemma addExample_result:
  "extractMetadata babelVisitorKeys addExample =
     Inr \<lparr>symbols = Some [fnSymbol ''add'' [anyParam ''a'', anyParam ''b''] (span 1 7 1 43)],
          dependencies = Some [],
          hasDefaultExport = None\<rparr>"
  by code_simp

lemma nestedExample_result:
  "extractMetadata babelVisitorKeys nestedExample =
     Inr \<lparr>symbols = Some [fnSymbol ''outer'' [] (span 1 0 1 40),
                           fnSymbol ''inner'' [] (span 1 19 1 38)],
          dependencies = Some [],
          hasDefaultExport = Some True\<rparr>"
  by code_simp

text \<open>
  The result of the walk depends on the table of visitor keys only through the children
  it gives to the nodes of the tree walked.
\<close>

lemma preorder_self: "node \<in> set (preorder vk node)"
  by (subst preorder.simps) simp

lemma preorder_child:
  "x \<in> set (children vk node) \<Longrightarrow> n \<in> set (preorder vk x) \<Longrightarrow> n \<in> set (preorder vk node)"
  by (subst preorder.simps) auto

lemma preorder_agree:
  "(\<And>n. n \<in> set (preorder vk' node) \<Longrightarrow> children vk n = children vk' n)
     \<Longrightarrow> preorder vk node = preorder vk' node"
proof (induction vk' node rule: preorder.induct)
  case (1 vk' node)
  have c: "children vk node = children vk' node"
    using "1.prems" [OF preorder_self] .
  have "preorder vk x = preorder vk' x" if x: "x \<in> set (children vk' node)" for x
    using "1.IH" [OF x] "1.prems" preorder_child [OF x] by blast
  then have m: "map (preorder vk) (children vk' node) = map (preorder vk') (children vk' node)"
    by (intro map_cong) simp_all
  have "preorder vk node = node # concat (map (preorder vk) (children vk node))"
    by (rule preorder.simps)
  also have "\<dots> = node # concat (map (preorder vk') (children vk' node))"
    by (simp only: c m)
  also have "\<dots> = preorder vk' node"
    by (rule preorder.simps [symmetric])
  finally show ?case .
qed

lemma traverse_agree:
  assumes "\<forall>n \<in> set (ast # traverse vk' ast). children vk n = children vk' n"
  shows "traverse vk ast = traverse vk' ast"
proof -
  from assms have c: "children vk ast = children vk' ast" by simp
  have "preorder vk x = preorder vk' x" if x: "x \<in> set (children vk' ast)" for x
  proof (rule preorder_agree)
    fix n assume "n \<in> set (preorder vk' x)"
    with x have "n \<in> set (traverse vk' ast)" by (auto simp: traverse_def)
    with assms show "children vk n = children vk' n" by simp
  qed
  then have m: "map (preorder vk) (children vk' ast) = map (preorder vk') (children vk' ast)"
    by (intro map_cong) simp_all
  show ?thesis by (simp only: traverse_def c m)
qed

lemma extractMetadata_agree:
  assumes "\<forall>n \<in> set (ast # traverse vk' ast). children vk n = children vk' n"
  shows "extractMetadata vk ast = extractMetadata vk' ast"
  using traverse_agree [OF assms] by (simp add: extractMetadata_def)

text \<open>
  On the tree of the file f.ts the walk raises at the function declaration, and
  \<^verbatim>\<open>parseFile\<close> rethrows it as a \<^verbatim>\<open>ParseError\<close>: no metadata for the file.
\<close>

lemma annotatedExample_result:
  "extractMetadata babelVisitorKeys annotatedExample = Inl TypeError"
  by code_simp

lemma parseFile_annotated:
  assumes "parse B annotatedSource (plugins ''f.ts'') = Inr annotatedExample"
    and "\<forall>n \<in> set (annotatedExample # traverse babelVisitorKeys annotatedExample).
           children (visitorKeys B) n = children babelVisitorKeys n"
  shows "parseFile B annotatedSource ''f.ts'' = Inl (ParseError ''f.ts'' JNull)"
  using assms(1) extractMetadata_agree [OF assms(2)]
  by (simp add: parseFile_def annotatedExample_result)

text \<open>
  C1. For the input file \<^verbatim>\<open>const x = require('path')\<close> extraction emits exactly one require
  dependency, with source \<open>"path"\<close>, and exactly one symbol: the constant \<open>x\<close>, as the rule
  for a binding whose initialiser is not a function says. (The parser gives the tree of the
  text, and the library's visitor keys give the nodes of that tree the children listed
  above.)
\<close>

theorem parseFile_require:
  assumes "parse B requireSource (plugins file) = Inr requireExample"
    and "\<forall>n \<in> set (requireExample # traverse babelVisitorKeys requireExample).
           children (visitorKeys B) n = children babelVisitorKeys n"
  shows "parseFile B requireSource file =
     Inr \<lparr>symbols = Some [[(''name'', JStr ''x''), (''type'', JStr ''const''),
                            (''loc'', span 1 6 1 25)]],
          dependencies = Some [[(''type'', JStr ''require''), (''source'', JStr ''path'')]],
          hasDefaultExport = None\<rparr>"
  using assms(1) extractMetadata_agree [OF assms(2)]
  by (simp add: parseFile_def requireExample_result)

theorem parseFile_require_witness:
  "parseFile \<lparr>parse = (\<lambda>content ps. Inr requireExample), visitorKeys = babelVisitorKeys\<rparr>
     requireSource ''index.js'' =
     Inr \<lparr>symbols = Some [[(''name'', JStr ''x''), (''type'', JStr ''const''),
                            (''loc'', span 1 6 1 25)]],
          dependencies = Some [[(''type'', JStr ''require''), (''source'', JStr ''path'')]],
          hasDefaultExport = None\<rparr>"
  using parseFile_require [of "\<lparr>parse = (\<lambda>content ps. Inr requireExample),
    visitorKeys = babelVisitorKeys\<rparr>" "''index.js''"]
  by simp

text \<open>The binding \<open>x\<close> does get a symbol, of type \<open>const\<close>.\<close>

theorem require_binding_symbol:
  "(case extractMetadata babelVisitorKeys requireExample of
      Inr md \<Rightarrow> map (\<lambda>s. (field s ''name'', field s ''type'')) (symbolsOf md)
    | Inl e \<Rightarrow> []) = [(JStr ''x'', JStr ''const'')]"
  by (simp add: requireExample_result symbolsOf_def field_def)

text \<open>
  C2. For a file declaring \<^verbatim>\<open>export function add(a, b) { return a + b; }\<close> extraction
  yields exactly one symbol: its name is \<open>"add"\<close>, its type discriminator is the string
  \<open>"fn"\<close>, its params are \<open>[{name: "a", type: "any"}, {name: "b", type: "any"}]\<close> in that
  order, its returnType is \<open>"any"\<close>, and it carries the location of the declaration. (With
  the parser and the visitor keys as in C1.)
\<close>

theorem parseFile_add:
  assumes "parse B addSource (plugins file) = Inr addExample"
    and "\<forall>n \<in> set (addExample # traverse babelVisitorKeys addExample).
           children (visitorKeys B) n = children babelVisitorKeys n"
  shows "parseFile B addSource file =
     Inr \<lparr>symbols = Some [[(''name'', JStr ''add''), (''type'', JStr ''fn''),
                            (''params'', JArr [JObj [(''name'', JStr ''a''), (''type'', JStr ''any'')],
                                               JObj [(''name'', JStr ''b''), (''type'', JStr ''any'')]]),
                            (''returnType'', JStr ''any''),
                            (''loc'', span 1 7 1 43)]],
          dependencies = Some [],
          hasDefaultExport = None\<rparr>"
  using assms(1) extractMetadata_agree [OF assms(2)]
  by (simp add: parseFile_def addExample_result fnSymbol_def anyParam_def)

theorem parseFile_add_witness:
  "parseFile \<lparr>parse = (\<lambda>content ps. Inr addExample), visitorKeys = babelVisitorKeys\<rparr>
     addSource ''math.js'' =
     Inr \<lparr>symbols = Some [[(''name'', JStr ''add''), (''type'', JStr ''fn''),
                            (''params'', JArr [JObj [(''name'', JStr ''a''), (''type'', JStr ''any'')],
                                               JObj [(''name'', JStr ''b''), (''type'', JStr ''any'')]]),
                            (''returnType'', JStr ''any''),
                            (''loc'', span 1 7 1 43)]],
          dependencies = Some [],
          hasDefaultExport = None\<rparr>"
  using parseFile_add [of "\<lparr>parse = (\<lambda>content ps. Inr addExample),
    visitorKeys = babelVisitorKeys\<rparr>" "''math.js''"]
  by simp

text \<open>The discriminator of the emitted symbol is \<open>"fn"\<close>, not \<open>"function"\<close>.\<close>

theorem add_symbol_type:
  "(case extractMetadata babelVisitorKeys addExample of
      Inr md \<Rightarrow> map (\<lambda>s. field s ''type'') (symbolsOf md)
    | Inl e \<Rightarrow> []) = [JStr ''fn'']"
  by (simp add: addExample_result symbolsOf_def field_def fnSymbol_def)

lemma pushSymbol_symbols:
  "pushSymbol md s = Inr md' \<Longrightarrow> symbols md = Some xs \<Longrightarrow> symbols md' = Some (xs @ [s])"
  by (auto simp: pushSymbol_def)

lemma pushDependency_symbols:
  "pushDependency md d = Inr md' \<Longrightarrow> symbols md' = symbols md"
  by (auto simp: pushDependency_def split: option.splits)

lemma exportSpecifier_symbols:
  assumes "exportSpecifier sp md = Inr md'" "symbols md = Some xs"
  shows "\<exists>s. symbols md' = Some (xs @ [s]) \<and> field s ''type'' = JStr ''export''"
proof -
  from assms(1) obtain name localName loc where
    "pushSymbol md [(''name'', name), (''localName'', localName), (''type'', JStr ''export''),
                    (''loc'', loc)] = Inr md'"
    by (auto simp: exportSpecifier_def bindE_Inr_iff)
  from pushSymbol_symbols [OF this assms(2)] show ?thesis by (auto simp: field_def)
qed

lemma foldE_exportSpecifier_symbols:
  "foldE exportSpecifier sps md = Inr md' \<Longrightarrow> symbols md = Some xs
     \<Longrightarrow> \<exists>ys. symbols md' = Some (xs @ ys) \<and> fnNamesOf ys = []"
proof (induction sps arbitrary: md xs)
  case Nil
  then show ?case by (simp add: fnNamesOf_def)
next
  case (Cons sp sps)
  from Cons.prems(1) obtain md1 where s1: "exportSpecifier sp md = Inr md1"
    and r: "foldE exportSpecifier sps md1 = Inr md'"
    by (auto simp: bindE_Inr_iff)
  from exportSpecifier_symbols [OF s1 Cons.prems(2)] obtain s where
    m1: "symbols md1 = Some (xs @ [s])" and ts: "field s ''type'' = JStr ''export''" by blast
  from Cons.IH [OF r m1] obtain ys where "symbols md' = Some ((xs @ [s]) @ ys)"
    and "fnNamesOf ys = []" by blast
  with ts have "symbols md' = Some (xs @ (s # ys)) \<and> fnNamesOf (s # ys) = []"
    by (simp add: fnNamesOf_def)
  then show ?case by blast
qed

lemma FunctionDeclaration_symbols:
  assumes "FunctionDeclaration node md = Inr md'" "symbols md = Some xs"
  shows "\<exists>ys. symbols md' = Some (xs @ ys)
     \<and> fnNamesOf ys = (if truthy (getv node ''id'') then [declaredName node] else [])"
proof (cases "truthy (getv node ''id'')")
  case True
  with assms(1) obtain params returnType loc where
    "pushSymbol md [(''name'', getv (getv node ''id'') ''name''), (''type'', JStr ''fn''),
                       (''params'', params), (''returnType'', returnType), (''loc'', loc)] = Inr md'"
    by (auto simp: FunctionDeclaration_def bindE_Inr_iff)
  from pushSymbol_symbols [OF this assms(2)] True show ?thesis
    by (auto simp: fnNamesOf_def field_def declaredName_def)
next
  case False
  with assms show ?thesis by (simp add: FunctionDeclaration_def fnNamesOf_def)
qed

lemma VariableDeclarator_symbols:
  assumes "VariableDeclarator node md = Inr md'" "symbols md = Some xs"
  shows "\<exists>ys. symbols md' = Some (xs @ ys)
     \<and> fnNamesOf ys =
         (if isType ''Identifier'' (getv node ''id'')
             \<and> (isType ''ArrowFunctionExpression'' (getv node ''init'')
                 \<or> isType ''FunctionExpression'' (getv node ''init''))
          then [declaredName node] else [])"
proof (cases "truthy (getv node ''id'') \<and> isType ''Identifier'' (getv node ''id'')
         \<and> truthy (getv node ''init'')")
  case guard: True
  show ?thesis
  proof (cases "isType ''ArrowFunctionExpression'' (getv node ''init'')
           \<or> isType ''FunctionExpression'' (getv node ''init'')")
    case True
    with guard assms(1) obtain params returnType loc where
      "pushSymbol md [(''name'', getv (getv node ''id'') ''name''), (''type'', JStr ''fn''),
                         (''params'', params), (''returnType'', returnType), (''loc'', loc)] = Inr md'"
      by (auto simp: VariableDeclarator_def bindE_Inr_iff)
    from pushSymbol_symbols [OF this assms(2)] True guard show ?thesis
      by (auto simp: fnNamesOf_def field_def declaredName_def)
  next
    case False
    with guard assms(1) obtain loc where
      "pushSymbol md [(''name'', getv (getv node ''id'') ''name''), (''type'', JStr ''const''),
                         (''loc'', loc)] = Inr md'"
      by (auto simp: VariableDeclarator_def bindE_Inr_iff)
    from pushSymbol_symbols [OF this assms(2)] False show ?thesis
      by (auto simp: fnNamesOf_def field_def)
  qed
next
  case False
  with assms have "md' = md" by (auto simp: VariableDeclarator_def)
  moreover from False have "\<not> (isType ''Identifier'' (getv node ''id'')
             \<and> (isType ''ArrowFunctionExpression'' (getv node ''init'')
                 \<or> isType ''FunctionExpression'' (getv node ''init'')))"
    by (auto simp: isType_def)
  ultimately show ?thesis using assms(2) by (simp add: fnNamesOf_def)
qed

lemma ClassDeclaration_symbols:
  assumes "ClassDeclaration node md = Inr md'" "symbols md = Some xs"
  shows "\<exists>ys. symbols md' = Some (xs @ ys) \<and> fnNamesOf ys = []"
proof (cases "truthy (getv node ''id'')")
  case True
  with assms(1) obtain loc fm where
    "pushSymbol md
          ([(''name'', getv (getv node ''id'') ''name''), (''type'', JStr ''class''),
            (''fields'', JArr (fst fm)), (''methods'', JArr (snd fm)), (''loc'', loc)]
           @ (if truthy (getv node ''superClass'') \<and> isType ''Identifier'' (getv node ''superClass'')
              then [(''extends'', getv (getv node ''superClass'') ''name'')] else [])) = Inr md'"
    by (auto simp: ClassDeclaration_def bindE_Inr_iff)
  from pushSymbol_symbols [OF this assms(2)] show ?thesis
    by (auto simp: fnNamesOf_def field_def)
next
  case False
  with assms show ?thesis by (simp add: ClassDeclaration_def fnNamesOf_def)
qed

lemma ExportNamedDeclaration_symbols:
  assumes "ExportNamedDeclaration node md = Inr md'" "symbols md = Some xs"
  shows "\<exists>ys. symbols md' = Some (xs @ ys) \<and> fnNamesOf ys = []"
proof (cases "truthy (getv node ''declaration'')")
  case True
  with assms show ?thesis by (simp add: ExportNamedDeclaration_def fnNamesOf_def)
next
  case False
  with assms(1) obtain sps where "foldE exportSpecifier sps md = Inr md'"
    by (cases "getv node ''specifiers''")
       (auto simp: ExportNamedDeclaration_def js_forEach_def)
  from foldE_exportSpecifier_symbols [OF this assms(2)] show ?thesis .
qed

lemma unchanged_symbols:
  "symbols md' = symbols md \<Longrightarrow> symbols md = Some xs
     \<Longrightarrow> \<exists>ys. symbols md' = Some (xs @ ys) \<and> fnNamesOf ys = []"
  by (simp add: fnNamesOf_def)

lemma visit_symbols:
  assumes v: "visit node md = Inr md'" and s: "symbols md = Some xs"
  shows "\<exists>ys. symbols md' = Some (xs @ ys)
     \<and> fnNamesOf ys = (if declaresFunction node then [declaredName node] else [])"
proof -
  consider (imp) "isType ''ImportDeclaration'' node" | (call) "isType ''CallExpression'' node"
    | (fn) "isType ''FunctionDeclaration'' node" | (var) "isType ''VariableDeclarator'' node"
    | (cls) "isType ''ClassDeclaration'' node" | (exn) "isType ''ExportNamedDeclaration'' node"
    | (exd) "isType ''ExportDefaultDeclaration'' node"
    | (other) "\<not> isType ''ImportDeclaration'' node" "\<not> isType ''CallExpression'' node"
        "\<not> isType ''FunctionDeclaration'' node" "\<not> isType ''VariableDeclarator'' node"
        "\<not> isType ''ClassDeclaration'' node" "\<not> isType ''ExportNamedDeclaration'' node"
        "\<not> isType ''ExportDefaultDeclaration'' node"
    by blast
  then show ?thesis
  proof cases
    case imp
    then have nd: "\<not> declaresFunction node"
      by (simp add: declaresFunction_def isType_other [OF imp])
    from imp v have "ImportDeclaration node md = Inr md'" by (simp add: visit_def isType_other [OF imp])
    then have "symbols md' = symbols md"
      by (auto simp: ImportDeclaration_def bindE_Inr_iff dest: pushDependency_symbols)
    from unchanged_symbols [OF this s] nd show ?thesis by simp
  next
    case call
    then have nd: "\<not> declaresFunction node"
      by (simp add: declaresFunction_def isType_other [OF call])
    from call v have "CallExpression node md = Inr md'"
      by (simp add: visit_def isType_other [OF call])
    then have "symbols md' = symbols md"
      by (auto simp: CallExpression_def bindE_Inr_iff dest: pushDependency_symbols
          split: if_splits)
    from unchanged_symbols [OF this s] nd show ?thesis by simp
  next
    case fn
    then have d: "declaresFunction node = truthy (getv node ''id'')"
      by (simp add: declaresFunction_def isType_other [OF fn])
    from fn v have "FunctionDeclaration node md = Inr md'"
      by (simp add: visit_def isType_other [OF fn])
    from FunctionDeclaration_symbols [OF this s] d show ?thesis by simp
  next
    case var
    then have d: "declaresFunction node = (isType ''Identifier'' (getv node ''id'')
             \<and> (isType ''ArrowFunctionExpression'' (getv node ''init'')
                 \<or> isType ''FunctionExpression'' (getv node ''init'')))"
      by (simp add: declaresFunction_def isType_other [OF var])
    from var v have "VariableDeclarator node md = Inr md'"
      by (simp add: visit_def isType_other [OF var])
    from VariableDeclarator_symbols [OF this s] d show ?thesis by simp
  next
    case cls
    then have nd: "\<not> declaresFunction node"
      by (simp add: declaresFunction_def isType_other [OF cls])
    from cls v have "ClassDeclaration node md = Inr md'"
      by (simp add: visit_def isType_other [OF cls])
    from ClassDeclaration_symbols [OF this s] nd show ?thesis by simp
  next
    case exn
    then have nd: "\<not> declaresFunction node"
      by (simp add: declaresFunction_def isType_other [OF exn])
    from exn v have "ExportNamedDeclaration node md = Inr md'"
      by (simp add: visit_def isType_other [OF exn])
    from ExportNamedDeclaration_symbols [OF this s] nd show ?thesis by simp
  next
    case exd
    then have nd: "\<not> declaresFunction node"
      by (simp add: declaresFunction_def isType_other [OF exd])
    from exd v have "ExportDefaultDeclaration node md = Inr md'"
      by (simp add: visit_def isType_other [OF exd])
    then have "symbols md' = symbols md" by (auto simp: ExportDefaultDeclaration_def)
    from unchanged_symbols [OF this s] nd show ?thesis by simp
  next
    case other
    then have nd: "\<not> declaresFunction node" by (auto simp: declaresFunction_def)
    from other v have "md' = md" by (simp add: visit_def)
    with s nd show ?thesis by (simp add: fnNamesOf_def)
  qed
qed

lemma fnNamesOf_append: "fnNamesOf (xs @ ys) = fnNamesOf xs @ fnNamesOf ys"
  by (simp add: fnNamesOf_def)

lemma foldE_visit_symbols:
  "foldE visit nodes md = Inr md' \<Longrightarrow> symbols md = Some xs
     \<Longrightarrow> \<exists>ys. symbols md' = Some (xs @ ys)
           \<and> fnNamesOf ys = map declaredName (filter declaresFunction nodes)"
proof (induction nodes arbitrary: md xs)
  case Nil
  then show ?case by (simp add: fnNamesOf_def)
next
  case (Cons n nodes)
  from Cons.prems(1) obtain md1 where v: "visit n md = Inr md1"
    and r: "foldE visit nodes md1 = Inr md'"
    by (auto simp: bindE_Inr_iff)
  from visit_symbols [OF v Cons.prems(2)] obtain ys where m1: "symbols md1 = Some (xs @ ys)"
    and f1: "fnNamesOf ys = (if declaresFunction n then [declaredName n] else [])" by blast
  from Cons.IH [OF r m1] obtain zs where m': "symbols md' = Some ((xs @ ys) @ zs)"
    and f2: "fnNamesOf zs = map declaredName (filter declaresFunction nodes)" by blast
  from m' f1 f2 have "symbols md' = Some (xs @ (ys @ zs))
      \<and> fnNamesOf (ys @ zs) = map declaredName (filter declaresFunction (n # nodes))"
    by (simp add: fnNamesOf_append)
  then show ?case by blast
qed

text \<open>
  C3. For every file tree on which extraction succeeds, the function symbols are, in
  order, exactly the named function declarations the traversal visits, at any nesting
  depth, together with the identifier bindings whose initialiser is an arrow or function
  expression; an anonymous function declaration yields no symbol.
\<close>

theorem function_symbols_every_depth:
  assumes "extractMetadata vk ast = Inr md"
  shows "fnNamesOf (symbolsOf md) = map declaredName (filter declaresFunction (traverse vk ast))"
  using foldE_visit_symbols [OF assms [unfolded extractMetadata_def]]
  by (auto simp: symbolsOf_def)

theorem function_symbols_every_depth_witness:
  "extractMetadata babelVisitorKeys nestedExample =
     Inr \<lparr>symbols = Some [fnSymbol ''outer'' [] (span 1 0 1 40),
                           fnSymbol ''inner'' [] (span 1 19 1 38)],
          dependencies = Some [],
          hasDefaultExport = Some True\<rparr>
   \<and> map declaredName (filter declaresFunction (traverse babelVisitorKeys nestedExample))
       = [JStr ''outer'', JStr ''inner'']"
  using function_symbols_every_depth [OF nestedExample_result] nestedExample_result
  by (simp add: symbolsOf_def fnNamesOf_def fnSymbol_def field_def)

text \<open>
  In the third example the only function declaration at the top level of the file is
  \<open>outer\<close>, and the declaration \<open>inner\<close> nested in its body yields a symbol all the same.
\<close>

theorem nested_function_symbol:
  "map declaredName (filter (isType ''FunctionDeclaration'') (topLevel nestedExample))
     = [JStr ''outer'']
   \<and> (case extractMetadata babelVisitorKeys nestedExample of
        Inr md \<Rightarrow> fnNamesOf (symbolsOf md) | Inl e \<Rightarrow> []) = [JStr ''outer'', JStr ''inner'']"
  by code_simp

section \<open>Properties of the manifest builder\<close>

lemma processFile_totalSymbols:
  "totalSymbols (stats (processFile h root fd m)) + symbolCount m
     = totalSymbols (stats m) + symbolCount (processFile h root fd m)"
  by (simp add: processFile_def symbolCount_def Let_def)

lemma processFile_totalDependencies:
  "totalDependencies (stats (processFile h root fd m)) + dependencyCount m
     = totalDependencies (stats m) + dependencyCount (processFile h root fd m)"
  by (simp add: processFile_def dependencyCount_def Let_def)

lemma fold_processFile_totals:
  assumes "totalSymbols (stats m) = symbolCount m"
    and "totalDependencies (stats m) = dependencyCount m"
  shows "totalSymbols (stats (fold (processFile h root) fs m))
           = symbolCount (fold (processFile h root) fs m)
       \<and> totalDependencies (stats (fold (processFile h root) fs m))
           = dependencyCount (fold (processFile h root) fs m)"
  using assms
proof (induction fs arbitrary: m)
  case Nil
  then show ?case by simp
next
  case (Cons fd fs)
  have s: "totalSymbols (stats (processFile h root fd m)) = symbolCount (processFile h root fd m)"
    using processFile_totalSymbols [of h root fd m] Cons.prems(1) by simp
  have d: "totalDependencies (stats (processFile h root fd m))
             = dependencyCount (processFile h root fd m)"
    using processFile_totalDependencies [of h root fd m] Cons.prems(2) by simp
  show ?case using Cons.IH [OF s d] by simp
qed

lemma initialManifest_totals:
  "totalSymbols (stats (initialManifest h root n)) = symbolCount (initialManifest h root n)"
  "totalDependencies (stats (initialManifest h root n))
     = dependencyCount (initialManifest h root n)"
  by (simp_all add: initialManifest_def symbolCount_def dependencyCount_def)

text \<open>
  C4. For every non-empty sequence of file results \<^verbatim>\<open>buildManifest\<close> returns a manifest, and
  in it \<open>stats.totalSymbols\<close> is the sum over the file manifests of the length of their
  symbols, and \<open>stats.totalDependencies\<close> the sum of the length of their dependencies.
\<close>

theorem buildManifest_totals:
  assumes "fs \<noteq> []"
  shows "\<exists>m. buildManifest h (FileResults fs) root = Inr m
           \<and> totalSymbols (stats m) = sum_list (map (\<lambda>fm. length (file_symbols fm)) (files m))
           \<and> totalDependencies (stats m)
               = sum_list (map (\<lambda>fm. length (file_dependencies fm)) (files m))"
proof -
  let ?m = "fold (processFile h root) fs (initialManifest h root (length fs))"
  have "buildManifest h (FileResults fs) root = Inr ?m"
    using assms by (simp add: buildManifest_def)
  moreover have "totalSymbols (stats ?m) = symbolCount ?m
      \<and> totalDependencies (stats ?m) = dependencyCount ?m"
    by (rule fold_processFile_totals) (rule initialManifest_totals)+
  ultimately show ?thesis
    by (simp add: symbolCount_def dependencyCount_def)
qed

theorem buildManifest_totals_witness:
  "[\<lparr>filePath = ''/p/a.js'',
      metadata = \<lparr>symbols = Some [[(''name'', JStr ''f''), (''type'', JStr ''fn'')],
                                   [(''name'', JStr ''x''), (''type'', JStr ''const'')]],
                  dependencies = Some [[(''type'', JStr ''require''), (''source'', JStr ''fs'')]],
                  hasDefaultExport = None\<rparr>\<rparr>] \<noteq> []
   \<and> (\<exists>m. buildManifest \<lparr>path_basename = drop 3, path_relative = (\<lambda>r. drop (length r + 1)),
                           date_now = ''2025-01-01T00:00:00.000Z''\<rparr>
          (FileResults
            [\<lparr>filePath = ''/p/a.js'',
              metadata = \<lparr>symbols = Some [[(''name'', JStr ''f''), (''type'', JStr ''fn'')],
                                           [(''name'', JStr ''x''), (''type'', JStr ''const'')]],
                          dependencies =
                            Some [[(''type'', JStr ''require''), (''source'', JStr ''fs'')]],
                          hasDefaultExport = None\<rparr>\<rparr>]) ''/p'' = Inr m
        \<and> totalSymbols (stats m) = sum_list (map (\<lambda>fm. length (file_symbols fm)) (files m))
        \<and> totalDependencies (stats m)
             = sum_list (map (\<lambda>fm. length (file_dependencies fm)) (files m)))"
  using buildManifest_totals [of
    "[\<lparr>filePath = ''/p/a.js'',
       metadata = \<lparr>symbols = Some [[(''name'', JStr ''f''), (''type'', JStr ''fn'')],
                                    [(''name'', JStr ''x''), (''type'', JStr ''const'')]],
                   dependencies = Some [[(''type'', JStr ''require''), (''source'', JStr ''fs'')]],
                   hasDefaultExport = None\<rparr>\<rparr>]"
    "\<lparr>path_basename = drop 3, path_relative = (\<lambda>r. drop (length r + 1)),
      date_now = ''2025-01-01T00:00:00.000Z''\<rparr>" "''/p''"]
  by simp

text \<open>
  C7. \<^verbatim>\<open>buildManifest\<close> rejects an argument that is not an array, and the empty array, with
  the input error \<^verbatim>\<open>UserInputError('No files to process')\<close>; no manifest is produced.
\<close>

theorem buildManifest_rejects_empty:
  "buildManifest h (FileResults []) root = Inl (UserInputError ''No files to process'')
   \<and> buildManifest h NotAnArray root = Inl (UserInputError ''No files to process'')
   \<and> (\<nexists>m. buildManifest h (FileResults []) root = Inr m)
   \<and> (\<nexists>m. buildManifest h NotAnArray root = Inr m)"
  by (simp add: buildManifest_def)

section \<open>Idempotence of the LLM simplification\<close>

lemma mapE_idem:
  assumes f: "\<And>x w. f x = Inr w \<Longrightarrow> f w = Inr w"
  shows "mapE f xs = Inr ws \<Longrightarrow> mapE f ws = Inr ws"
proof (induction xs arbitrary: ws)
  case Nil
  then show ?case by simp
next
  case (Cons x xs)
  from Cons.prems obtain y ys where y: "f x = Inr y" and ys: "mapE f xs = Inr ys"
    and ws: "ws = y # ys"
    by (auto simp: bindE_Inr_iff)
  have "f y = Inr y" using f [OF y] .
  moreover have "mapE f ys = Inr ys" using Cons.IH [OF ys] .
  ultimately show ?case using ws by simp
qed

lemma js_map_idem:
  assumes f: "\<And>x w. f x = Inr w \<Longrightarrow> f w = Inr w" and r: "js_map f v = Inr w"
  shows "js_map f w = Inr w"
proof -
  from r obtain xs ys where "v = JArr xs" and m: "mapE f xs = Inr ys" and w: "w = JArr ys"
    by (cases v) (auto simp: js_map_def bindE_Inr_iff)
  from mapE_idem [of f, OF f m] w show ?thesis by (simp add: js_map_def)
qed

lemma nameAndType_idem: "nameAndType v = Inr w \<Longrightarrow> nameAndType w = Inr w"
  by (auto simp: nameAndType_def bindE_Inr_iff field_def dest!: getProp_Inr)

lemma simplifyField_idem: "simplifyField v = Inr w \<Longrightarrow> simplifyField w = Inr w"
  by (auto simp: simplifyField_def bindE_Inr_iff field_def dest!: getProp_Inr)

lemma patternList_cases:
  assumes "patternList v name tag key = Inr r"
  shows "r = [] \<or> (\<exists>ys. r = [(key, JArr ys)] \<and> name = JStr tag
            \<and> js_map nameAndType (JArr ys) = Inr (JArr ys))"
proof (cases "name = JStr tag")
  case False
  with assms show ?thesis by (simp add: patternList_def)
next
  case True
  with assms obtain xs where xs: "getProp v key = Inr xs"
    and r: "(if truthy xs then bindE (js_map nameAndType xs) (\<lambda>ys. Inr [(key, ys)]) else Inr [])
              = Inr r"
    by (auto simp: patternList_def bindE_Inr_iff)
  show ?thesis
  proof (cases "truthy xs")
    case False
    with r show ?thesis by simp
  next
    case t: True
    with r obtain w where w: "js_map nameAndType xs = Inr w" and rw: "r = [(key, w)]"
      by (auto simp: bindE_Inr_iff)
    from js_map_result [OF w] obtain ys where ys: "w = JArr ys" by blast
    have "js_map nameAndType w = Inr w"
      using js_map_idem [OF nameAndType_idem w] .
    with ys rw True show ?thesis by simp
  qed
qed

lemma patternList_again:
  assumes "r = [] \<or> (\<exists>ys. r = [(key, JArr ys)] \<and> name = JStr tag
            \<and> js_map nameAndType (JArr ys) = Inr (JArr ys))"
    and "field kvs key = (case r of [] \<Rightarrow> JUndefined | e # _ \<Rightarrow> snd e)"
  shows "patternList (JObj kvs) name tag key = Inr r"
  using assms by (auto simp: patternList_def)

lemma simplifyParam_idem:
  assumes "simplifyParam v = Inr w"
  shows "simplifyParam w = Inr w"
proof (cases "truthy v")
  case False
  with assms show ?thesis by (simp add: simplifyParam_def)
next
  case True
  with assms obtain name ty hasDefault props elems where
    p: "patternList v name ''objectPattern'' ''properties'' = Inr props"
    and e: "patternList v name ''arrayPattern'' ''elements'' = Inr elems"
    and w: "w = JObj ([(''name'', name), (''type'', ty)]
                   @ (if truthy hasDefault then [(''hasDefault'', JBool True)] else [])
                   @ props @ elems)"
    by (auto simp: simplifyParam_def bindE_Inr_iff)
  let ?kvs = "[(''name'', name), (''type'', ty)]
                   @ (if truthy hasDefault then [(''hasDefault'', JBool True)] else [])
                   @ props @ elems"
  note pc = patternList_cases [OF p]
  note ec = patternList_cases [OF e]
  have n: "field ?kvs ''name'' = name" and t: "field ?kvs ''type'' = ty"
    by (simp_all add: field_def)
  have h: "truthy (field ?kvs ''hasDefault'') = truthy hasDefault"
    using pc ec by (auto simp: field_def)
  have fp: "field ?kvs ''properties'' = (case props of [] \<Rightarrow> JUndefined | e # _ \<Rightarrow> snd e)"
    using pc ec by (auto simp: field_def)
  have fe: "field ?kvs ''elements'' = (case elems of [] \<Rightarrow> JUndefined | e # _ \<Rightarrow> snd e)"
    using pc ec by (auto simp: field_def)
  have p': "patternList (JObj ?kvs) name ''objectPattern'' ''properties'' = Inr props"
    using patternList_again [OF pc fp] .
  have e': "patternList (JObj ?kvs) name ''arrayPattern'' ''elements'' = Inr elems"
    using patternList_again [OF ec fe] .
  have "simplifyParam (JObj ?kvs) = Inr (JObj ?kvs)"
    unfolding simplifyParam_def using n t h p' e'
    by (simp del: append.simps)
  with w show ?thesis by simp
qed

lemma simplifyParams_idem:
  assumes "simplifyParams v = Inr w"
  shows "simplifyParams w = Inr w"
proof (cases "truthy v")
  case True
  with assms have m: "js_map simplifyParam v = Inr w" by (simp add: simplifyParams_def)
  from js_map_result [OF m] obtain ys where "w = JArr ys" by blast
  with js_map_idem [of simplifyParam, OF simplifyParam_idem m] show ?thesis
    by (simp add: simplifyParams_def)
next
  case False
  with assms show ?thesis by (auto simp: simplifyParams_def js_map_def)
qed

lemma simplifyMethod_idem:
  assumes "simplifyMethod v = Inr w"
  shows "simplifyMethod w = Inr w"
proof -
  from assms obtain name kind static params ps returnType where
    ps: "simplifyParams params = Inr ps"
    and w: "w = JObj [(''name'', name), (''kind'', kind), (''static'', static),
                (''params'', ps), (''returnType'', returnType)]"
    by (auto simp: simplifyMethod_def bindE_Inr_iff)
  from simplifyParams_idem [OF ps] w show ?thesis
    by (simp add: simplifyMethod_def field_def)
qed

lemma listOrEmpty_idem:
  assumes f: "\<And>x w. f x = Inr w \<Longrightarrow> f w = Inr w"
    and r: "(if truthy v then js_map f v else Inr (JArr [])) = Inr w"
  shows "(if truthy w then js_map f w else Inr (JArr [])) = Inr w"
proof (cases "truthy v")
  case True
  with r have m: "js_map f v = Inr w" by simp
  from js_map_result [OF m] obtain ys where "w = JArr ys" by blast
  with js_map_idem [of f, OF f m] show ?thesis by simp
next
  case False
  with r show ?thesis by (auto simp: js_map_def)
qed

lemma simplifySymbol_idem:
  assumes "simplifySymbol v = Inr w"
  shows "simplifySymbol w = Inr w"
proof -
  from assms obtain name ty where
    r: "(if ty = JStr ''fn'' then
       bindE (getProp v ''params'') (\<lambda>params.
       bindE (simplifyParams params) (\<lambda>ps.
       bindE (getProp v ''returnType'') (\<lambda>returnType.
       Inr (JObj [(''name'', name), (''type'', ty), (''params'', ps),
                  (''returnType'', returnType)]))))
     else if ty = JStr ''class'' then
       bindE (getProp v ''fields'') (\<lambda>fields.
       bindE (if truthy fields then js_map simplifyField fields else Inr (JArr [])) (\<lambda>fs.
       bindE (getProp v ''methods'') (\<lambda>methods.
       bindE (if truthy methods then js_map simplifyMethod methods else Inr (JArr [])) (\<lambda>ms.
       bindE (getProp v ''extends'') (\<lambda>extends.
       Inr (JObj ([(''name'', name), (''type'', ty), (''fields'', fs), (''methods'', ms)]
                  @ (if truthy extends then [(''extends'', extends)] else []))))))))
     else if ty = JStr ''export'' then
       bindE (getProp v ''localName'') (\<lambda>localName.
       Inr (JObj [(''name'', name), (''type'', ty), (''localName'', localName)]))
     else Inr (JObj [(''name'', name), (''type'', ty)])) = Inr w"
    by (auto simp: simplifySymbol_def bindE_Inr_iff)
  consider (fn) "ty = JStr ''fn''" | (cls) "ty = JStr ''class''" | (exp) "ty = JStr ''export''"
    | (other) "ty \<noteq> JStr ''fn''" "ty \<noteq> JStr ''class''" "ty \<noteq> JStr ''export''"
    by blast
  then show ?thesis
  proof cases
    case fn
    with r obtain params ps returnType where ps: "simplifyParams params = Inr ps"
      and w: "w = JObj [(''name'', name), (''type'', ty), (''params'', ps),
                  (''returnType'', returnType)]"
      by (auto simp: bindE_Inr_iff)
    from simplifyParams_idem [OF ps] w fn show ?thesis
      by (simp add: simplifySymbol_def field_def)
  next
    case cls
    with r obtain fields fs methods ms extends where
      fs: "(if truthy fields then js_map simplifyField fields else Inr (JArr [])) = Inr fs"
      and ms: "(if truthy methods then js_map simplifyMethod methods else Inr (JArr [])) = Inr ms"
      and w: "w = JObj ([(''name'', name), (''type'', ty), (''fields'', fs), (''methods'', ms)]
                  @ (if truthy extends then [(''extends'', extends)] else []))"
      by (auto simp: bindE_Inr_iff)
    note fs' = listOrEmpty_idem [of simplifyField, OF simplifyField_idem fs]
    note ms' = listOrEmpty_idem [of simplifyMethod, OF simplifyMethod_idem ms]
    show ?thesis
    proof (cases "truthy extends")
      case True
      with w cls fs' ms' show ?thesis by (simp add: simplifySymbol_def field_def)
    next
      case False
      with w cls fs' ms' show ?thesis by (simp add: simplifySymbol_def field_def)
    qed
  next
    case exp
    with r show ?thesis
      by (auto simp: simplifySymbol_def bindE_Inr_iff field_def)
  next
    case other
    with r show ?thesis
      by (auto simp: simplifySymbol_def field_def)
  qed
qed

lemma simplifyFile_idem:
  assumes "simplifyFile v = Inr w"
  shows "simplifyFile w = Inr w"
proof -
  from assms obtain p syms ss deps hde where ss: "js_map simplifySymbol syms = Inr ss"
    and w: "w = JObj [(''path'', p), (''symbols'', ss), (''dependencies'', deps),
                (''hasDefaultExport'', hde)]"
    by (auto simp: simplifyFile_def bindE_Inr_iff)
  from js_map_idem [of simplifySymbol, OF simplifySymbol_idem ss] w show ?thesis
    by (simp add: simplifyFile_def field_def)
qed

lemma optimizeForLLM_fixed:
  assumes "optimizeForLLM m = Inr w"
  shows "optimizeForLLM w = Inr w"
proof -
  from assms obtain v files fs where fs: "js_map simplifyFile files = Inr fs"
    and w: "w = JObj [(''version'', v), (''files'', fs)]"
    by (auto simp: optimizeForLLM_def bindE_Inr_iff)
  from js_map_idem [of simplifyFile, OF simplifyFile_idem fs] w show ?thesis
    by (simp add: optimizeForLLM_def field_def)
qed

text \<open>
  C6. The LLM simplification is idempotent: for every manifest \<open>m\<close>, simplifying the
  simplified manifest gives the simplified manifest again (and where the first run raises,
  so does the composition).
\<close>

theorem optimizeForLLM_idempotent:
  "bindE (optimizeForLLM m) optimizeForLLM = optimizeForLLM m"
proof (cases "optimizeForLLM m")
  case (Inl e)
  then show ?thesis by simp
next
  case (Inr w)
  with optimizeForLLM_fixed [OF Inr] show ?thesis by simp
qed

section \<open>Properties of string interning\<close>

lemma decode_ref_free:
  "ref_free v \<Longrightarrow> decode T v = v"
  "ref_free_items xs \<Longrightarrow> decodeItems T xs = xs"
  "ref_free_entries kvs \<Longrightarrow> decodeEntries T kvs = kvs"
  by (induction T v and T xs and T kvs rule: decode_decodeItems_decodeEntries.induct) auto

lemma internString_ok:
  assumes ok: "table_ok st" and r: "internString st (JStr s) = (v', st')"
  shows "table_ok st' \<and> (\<exists>ys. stringTable st' = stringTable st @ ys)
     \<and> (\<forall>zs. decode (map JStr (stringTable st') @ zs) v' = JStr s)"
proof (cases "stringMap st s")
  case None
  let ?n = "length (stringTable st)"
  from r None have st': "st' = st\<lparr>stringTable := stringTable st @ [s],
                             stringMap := (stringMap st)(s \<mapsto> ?n)\<rparr>"
    and v': "v' = JObj [(''$ref'', JNum (int ?n))]"
    by (auto simp: internString_def Let_def)
  have "table_ok st'"
    unfolding table_ok_def
  proof (intro allI impI)
    fix t i assume h: "stringMap st' t = Some i"
    show "i < length (stringTable st') \<and> stringTable st' ! i = t"
    proof (cases "t = s")
      case True
      with h st' show ?thesis by (auto simp: nth_append)
    next
      case False
      with h st' have "stringMap st t = Some i" by simp
      with ok have "i < ?n \<and> stringTable st ! i = t" by (simp add: table_ok_def)
      with st' show ?thesis by (simp add: nth_append)
    qed
  qed
  moreover have "\<exists>ys. stringTable st' = stringTable st @ ys" using st' by simp
  moreover have "\<forall>zs. decode (map JStr (stringTable st') @ zs) v' = JStr s"
    using st' v' by (simp add: field_def nth_append)
  ultimately show ?thesis by blast
next
  case (Some i)
  from r Some have st': "st' = st" and v': "v' = JObj [(''$ref'', JNum (int i))]"
    by (auto simp: internString_def Let_def)
  from ok Some have "i < length (stringTable st) \<and> stringTable st ! i = s"
    by (simp add: table_ok_def)
  with st' v' ok show ?thesis by (simp add: field_def nth_append)
qed

lemma is_ref_iff: "is_ref v = (\<exists>i. v = JObj [(''$ref'', JNum i)])"
  by (cases v rule: is_ref.cases) auto

lemma processObject_JNum:
  "processObject st v = (JNum i, st') \<Longrightarrow> v = JNum i"
  by (cases v) (auto split: prod.splits)

lemma processEntries_not_ref:
  assumes "processEntries st kvs = (kvs', st')" "\<not> is_ref (JObj kvs)" "ref_free_entries kvs"
    "proto_free_entries kvs"
  shows "\<not> is_ref (JObj kvs')"
proof (cases kvs)
  case Nil
  with assms show ?thesis by simp
next
  case (Cons e rest)
  obtain k v where e: "e = (k, v)" by (cases e)
  from assms(4) \<open>kvs = e # rest\<close> e have np: "k \<noteq> ''__proto__''"
    and pr: "proto_free_entries rest" by auto
  show ?thesis
  proof (cases rest)
    case Nil
    show ?thesis
    proof (cases "k = ''$ref''")
      case True
      then have nx: "\<not> excluded k" by (simp add: excluded_def)
      from assms(2) Cons e Nil True have nn: "\<And>i. v \<noteq> JNum i" by (auto simp: is_ref_iff)
      show ?thesis
      proof (cases "is_string v")
        case True
        then obtain s where "v = JStr s" by (cases v) auto
        with assms(1) Cons e Nil nx np show ?thesis
          by (auto simp: internString_def Let_def is_ref_iff split: prod.splits)
      next
        case False
        with assms(1) Cons e Nil nx nn np show ?thesis
          by (cases v) (auto simp: is_ref_iff split: prod.splits)
      qed
    next
      case False
      with assms(1) Cons e Nil np show ?thesis
        by (auto simp: is_ref_iff split: prod.splits if_splits)
    qed
  next
    case (Cons e2 rest2)
    obtain k2 v2 where "e2 = (k2, v2)" by (cases e2)
    with assms(1) \<open>kvs = e # rest\<close> e Cons np pr show ?thesis
      by (auto simp: is_ref_iff split: prod.splits if_splits)
  qed
qed

lemma roundtrip_gen:
  "table_ok st \<Longrightarrow> ref_free v \<Longrightarrow> processObject st v = (v', st') \<Longrightarrow> proto_free v \<Longrightarrow>
     table_ok st' \<and> (\<exists>ys. stringTable st' = stringTable st @ ys)
     \<and> (\<forall>zs. decode (map JStr (stringTable st') @ zs) v' = v)"
  "table_ok st \<Longrightarrow> ref_free_items xs \<Longrightarrow> processItems st xs = (xs', st') \<Longrightarrow> proto_free_items xs \<Longrightarrow>
     table_ok st' \<and> (\<exists>ys. stringTable st' = stringTable st @ ys)
     \<and> (\<forall>zs. decodeItems (map JStr (stringTable st') @ zs) xs' = xs)"
  "table_ok st \<Longrightarrow> ref_free_entries kvs \<Longrightarrow> processEntries st kvs = (kvs', st') \<Longrightarrow>
     proto_free_entries kvs \<Longrightarrow>
     table_ok st' \<and> (\<exists>ys. stringTable st' = stringTable st @ ys)
     \<and> (\<forall>zs. decodeEntries (map JStr (stringTable st') @ zs) kvs' = kvs)"
proof (induction st v and st xs and st kvs arbitrary: v' st' and xs' st' and kvs' st'
    rule: processObject_processItems_processEntries.induct)
  case (1 st xs)
  then show ?case by (auto split: prod.splits)
next
  case (2 st kvs)
  from "2.prems"(3) obtain kvs1 where pe: "processEntries st kvs = (kvs1, st')" and v': "v' = JObj kvs1"
    by (auto split: prod.splits)
  from "2.prems"(2) have nr: "\<not> is_ref (JObj kvs)" and rf: "ref_free_entries kvs" by auto
  from "2.prems"(4) have pf: "proto_free_entries kvs" by simp
  have nr': "\<not> is_ref (JObj kvs1)" using processEntries_not_ref [OF pe nr rf pf] .
  from "2.IH" [OF "2.prems"(1) rf pe pf] v' nr' show ?case by simp
next
  case (5 st x xs)
  obtain y st1 where px: "processObject st x = (y, st1)" by (cases "processObject st x")
  obtain ys st2 where pxs: "processItems st1 xs = (ys, st2)" by (cases "processItems st1 xs")
  from "5.prems" px pxs have xs': "xs' = y # ys" and st': "st' = st2" by auto
  from "5.prems"(2) have rx: "ref_free x" and rxs: "ref_free_items xs" by auto
  from "5.prems"(4) have fx: "proto_free x" and fxs: "proto_free_items xs" by auto
  from "5.IH"(1) [OF "5.prems"(1) rx px fx]
  have ok1: "table_ok st1" and ext1: "\<exists>ys. stringTable st1 = stringTable st @ ys"
    and d1: "\<forall>zs. decode (map JStr (stringTable st1) @ zs) y = x" by auto
  from "5.IH"(2) [OF px [symmetric] refl ok1 rxs pxs fxs]
  have ok2: "table_ok st2" and ext2: "\<exists>ys. stringTable st2 = stringTable st1 @ ys"
    and d2: "\<forall>zs. decodeItems (map JStr (stringTable st2) @ zs) ys = xs" by auto
  from ext2 obtain e2 where e2: "stringTable st2 = stringTable st1 @ e2" by blast
  from ext1 obtain e1 where e1: "stringTable st1 = stringTable st @ e1" by blast
  have "\<forall>zs. decode (map JStr (stringTable st2) @ zs) y = x"
    using d1 e2 by simp
  with ok2 d2 e1 e2 xs' st' show ?case by simp
next
  case (7 st key v rest)
  define r where "r = (if excluded key then (v, st)
         else if is_string v then internString st v
         else processObject st v)"
  obtain w st1 where r: "r = (w, st1)" by (cases r)
  obtain rest1 st2 where pr: "processEntries st1 rest = (rest1, st2)"
    by (cases "processEntries st1 rest")
  from "7.prems"(4) have np: "key \<noteq> ''__proto__''" and fv: "proto_free v"
    and fr: "proto_free_entries rest" by auto
  from "7.prems"(3) r pr np have kvs': "kvs' = (key, w) # rest1" and st': "st' = st2"
    by (auto simp: r_def)
  from "7.prems"(2) have rv: "ref_free v" and rr: "ref_free_entries rest" by auto
  have step: "table_ok st1 \<and> (\<exists>ys. stringTable st1 = stringTable st @ ys)
     \<and> (\<forall>zs. decode (map JStr (stringTable st1) @ zs) w = v)"
  proof (cases "excluded key")
    case True
    with r have "w = v" "st1 = st" by (auto simp: r_def)
    with "7.prems"(1) rv show ?thesis by (simp add: decode_ref_free)
  next
    case nx: False
    show ?thesis
    proof (cases "is_string v")
      case True
      then obtain s where s: "v = JStr s" by (cases v) auto
      with nx r have "internString st (JStr s) = (w, st1)" by (simp add: r_def)
      from internString_ok [OF "7.prems"(1) this] s show ?thesis by simp
    next
      case False
      with nx r have "processObject st v = (w, st1)" by (simp add: r_def)
      from "7.IH"(1) [OF nx False "7.prems"(1) rv this fv] show ?thesis .
    qed
  qed
  then have ok1: "table_ok st1" and ext1: "\<exists>ys. stringTable st1 = stringTable st @ ys"
    and d1: "\<forall>zs. decode (map JStr (stringTable st1) @ zs) w = v" by auto
  from "7.IH"(2) [OF r [unfolded r_def, symmetric] refl ok1 rr pr fr]
  have ok2: "table_ok st2" and ext2: "\<exists>ys. stringTable st2 = stringTable st1 @ ys"
    and d2: "\<forall>zs. decodeEntries (map JStr (stringTable st2) @ zs) rest1 = rest" by auto
  from ext2 obtain e2 where e2: "stringTable st2 = stringTable st1 @ e2" by blast
  from ext1 obtain e1 where e1: "stringTable st1 = stringTable st @ e1" by blast
  have "\<forall>zs. decode (map JStr (stringTable st2) @ zs) w = v"
    using d1 e2 by simp
  with ok2 d2 e1 e2 kvs' st' show ?case by simp
qed auto

lemma processEntries_keys:
  "processEntries st kvs = (kvs', st') \<Longrightarrow> proto_free_entries kvs
     \<Longrightarrow> map fst kvs' = map fst kvs"
  by (induction kvs arbitrary: st kvs' st') (auto split: prod.splits)

lemma excluded_not_proto: "excluded k \<Longrightarrow> k \<noteq> ''__proto__''"
  by (auto simp: excluded_def)

lemma processEntries_excluded:
  "excluded k \<Longrightarrow> processEntries st kvs = (kvs', st') \<Longrightarrow> map_of kvs' k = map_of kvs k"
  by (induction kvs arbitrary: st kvs' st')
     (auto dest: excluded_not_proto split: prod.splits if_splits)

text \<open>The entry that is dropped, and its string in the table.\<close>

lemma proto_entry_dropped:
  "processObject emptyTable (JObj [(''a'', JStr ''x''), (''__proto__'', JStr ''y'')])
     = (JObj [(''a'', JObj [(''$ref'', JNum 0)])],
        \<lparr>stringTable = [''x'', ''y''], stringMap = [''x'' \<mapsto> 0, ''y'' \<mapsto> 1]\<rparr>)"
  by (simp add: emptyTable_def internString_def excluded_def)

lemma upsert_absent:
  "map_of kvs k = None \<Longrightarrow> upsert kvs k v = kvs @ [(k, v)]"
  by (induction kvs) (auto split: if_splits)

lemma removeKey_absent:
  "map_of kvs k = None \<Longrightarrow> removeKey k (kvs @ [(k, v)]) = kvs"
  by (induction kvs) (auto simp: removeKey_def split: if_splits)

lemma map_of_keys_eq:
  "map fst kvs' = map fst kvs \<Longrightarrow> map_of kvs k = None \<Longrightarrow> map_of kvs' k = None"
  by (metis map_of_eq_None_iff list.set_map)

lemma table_ok_empty: "table_ok emptyTable"
  by (simp add: table_ok_def emptyTable_def)

text \<open>
  C5. For every manifest (an object without a \<^verbatim>\<open>stringTable\<close> field of its own, without
  objects of the reference shape \<^verbatim>\<open>{$ref: i}\<close> and without fields named \<^verbatim>\<open>__proto__\<close>, as is
  every manifest that \<^verbatim>\<open>buildManifest\<close> gives), replacing each \<^verbatim>\<open>{$ref: i}\<close> in the output of
  \<^verbatim>\<open>optimizeManifest\<close> by the \<open>i\<close>-th entry of the produced \<^verbatim>\<open>stringTable\<close> reconstructs the
  input exactly; the top-level fields \<^verbatim>\<open>version\<close>, \<^verbatim>\<open>generated\<close> and \<^verbatim>\<open>rootPath\<close> are carried
  through untouched.
\<close>

theorem optimizeManifest_roundtrip:
  assumes rf: "ref_free (JObj manifest)"
    and nst: "map_of manifest ''stringTable'' = None"
    and pf: "proto_free (JObj manifest)"
  shows "restore (optimizeManifest manifest) = manifest
     \<and> (\<forall>k. excluded k \<longrightarrow> field (optimizeManifest manifest) k = field manifest k)"
proof -
  obtain optimized st where pe: "processEntries emptyTable manifest = (optimized, st)"
    by (cases "processEntries emptyTable manifest")
  from rf have rfe: "ref_free_entries manifest" by simp
  from pf have pfe: "proto_free_entries manifest" by simp
  have keys: "map fst optimized = map fst manifest" using processEntries_keys [OF pe pfe] .
  have none: "map_of optimized ''stringTable'' = None" using map_of_keys_eq [OF keys nst] .
  let ?T = "map JStr (stringTable st)"
  have out: "optimizeManifest manifest = optimized @ [(''stringTable'', JArr ?T)]"
    using pe none by (simp add: optimizeManifest_def upsert_absent)
  have dec: "decodeEntries ?T optimized = manifest"
    using roundtrip_gen(3) [OF table_ok_empty rfe pe pfe] by (metis append_Nil2)
  have fld: "field (optimizeManifest manifest) ''stringTable'' = JArr ?T"
    using none by (simp add: out field_def map_add_def)
  have "restore (optimizeManifest manifest) = manifest"
    using fld dec none by (simp add: restore_def) (simp add: out removeKey_absent)
  moreover have "\<forall>k. excluded k \<longrightarrow> field (optimizeManifest manifest) k = field manifest k"
  proof (intro allI impI)
    fix k assume ex: "excluded k"
    then have "k \<noteq> ''stringTable''" by (auto simp: excluded_def)
    then show "field (optimizeManifest manifest) k = field manifest k"
      using processEntries_excluded [OF ex pe]
      by (auto simp: out field_def map_add_def split: option.splits)
  qed
  ultimately show ?thesis by blast
qed

theorem optimizeManifest_roundtrip_witness:
  "ref_free (JObj sampleManifest) \<and> map_of sampleManifest ''stringTable'' = None
   \<and> proto_free (JObj sampleManifest)
   \<and> restore (optimizeManifest sampleManifest) = sampleManifest
   \<and> field (optimizeManifest sampleManifest) ''version'' = JStr ''1.0.0''
   \<and> field (optimizeManifest sampleManifest) ''generated'' = JStr ''2025-01-01T00:00:00.000Z''
   \<and> field (optimizeManifest sampleManifest) ''rootPath'' = JStr ''/project''"
proof -
  have r: "ref_free (JObj sampleManifest)" by code_simp
  have n: "map_of sampleManifest ''stringTable'' = None" by code_simp
  have p: "proto_free (JObj sampleManifest)" by code_simp
  have x: "excluded ''version''" "excluded ''generated''" "excluded ''rootPath''"
    by (simp_all add: excluded_def)
  have f: "field sampleManifest ''version'' = JStr ''1.0.0''"
    "field sampleManifest ''generated'' = JStr ''2025-01-01T00:00:00.000Z''"
    "field sampleManifest ''rootPath'' = JStr ''/project''"
    by (simp_all add: sampleManifest_def field_def)
  from optimizeManifest_roundtrip [OF r n p] r n p x f show ?thesis by simp
qed

lemma processEntries_field:
  "\<not> excluded k \<Longrightarrow> map_of kvs k = Some w \<Longrightarrow> \<not> is_string w
     \<Longrightarrow> processEntries st kvs = (kvs', st') \<Longrightarrow> k \<noteq> ''__proto__''
     \<Longrightarrow> \<exists>st1. map_of kvs' k = Some (fst (processObject st1 w))"
proof (induction kvs arbitrary: st kvs' st')
  case Nil
  then show ?case by simp
next
  case (Cons e rest)
  obtain k0 v0 where e: "e = (k0, v0)" by (cases e)
  define r where "r = (if excluded k0 then (v0, st)
         else if is_string v0 then internString st v0
         else processObject st v0)"
  obtain w0 st1 where r: "r = (w0, st1)" by (cases r)
  obtain rest1 st2 where pr: "processEntries st1 rest = (rest1, st2)"
    by (cases "processEntries st1 rest")
  from Cons.prems(4) e r pr
  have kvs': "kvs' = (if k0 = ''__proto__'' then rest1 else (k0, w0) # rest1)"
    by (auto simp: r_def)
  show ?case
  proof (cases "k0 = k")
    case True
    with Cons.prems e have "v0 = w" by simp
    with True Cons.prems r have "w0 = fst (processObject st w)" by (simp add: r_def)
    with kvs' True Cons.prems(5) show ?thesis by auto
  next
    case False
    with Cons.prems e have "map_of rest k = Some w" by simp
    from Cons.IH [OF Cons.prems(1) this Cons.prems(3) pr Cons.prems(5)] kvs' False
    show ?thesis by simp
  qed
qed

lemma processItems_nth:
  "processItems st xs = (ys, st') \<Longrightarrow> i < length xs
     \<Longrightarrow> length ys = length xs \<and> (\<exists>st1. ys ! i = fst (processObject st1 (xs ! i)))"
proof (induction xs arbitrary: st ys st' i)
  case Nil
  then show ?case by simp
next
  case (Cons x xs)
  obtain y st1 where px: "processObject st x = (y, st1)" by (cases "processObject st x")
  obtain ys1 st2 where pxs: "processItems st1 xs = (ys1, st2)" by (cases "processItems st1 xs")
  from Cons.prems px pxs have ys: "ys = y # ys1" by simp
  show ?case
  proof (cases i)
    case 0
    have "length ys1 = length xs"
    proof (cases xs)
      case Nil with pxs show ?thesis by simp
    next
      case (Cons a list)
      then have "0 < length xs" by simp
      from Cons.IH [OF pxs this] show ?thesis by simp
    qed
    with 0 ys px show ?thesis by (auto intro: exI [of _ st])
  next
    case (Suc j)
    with Cons.prems have "j < length xs" by simp
    from Cons.IH [OF pxs this] Suc ys show ?thesis by simp
  qed
qed

lemma processObject_path:
  "lookup_path m p = Some v \<Longrightarrow> \<exists>k. excluded k \<and> Key k \<in> set p
     \<Longrightarrow> Key ''__proto__'' \<notin> set p
     \<Longrightarrow> lookup_path (fst (processObject st m)) p = Some v"
proof (induction p arbitrary: m st)
  case Nil
  then show ?case by simp
next
  case (Cons s p)
  show ?case
  proof (cases s)
    case (Key k)
    with Cons.prems(1) obtain kvs w where m: "m = JObj kvs" and w: "map_of kvs k = Some w"
      and lw: "lookup_path w p = Some v"
      by (cases m) (auto split: option.splits)
    obtain kvs' st' where pe: "processEntries st kvs = (kvs', st')"
      by (cases "processEntries st kvs")
    show ?thesis
    proof (cases "excluded k")
      case True
      from processEntries_excluded [OF True pe] w lw m pe Key show ?thesis by simp
    next
      case False
      with Cons.prems(2) Key have inp: "\<exists>k. excluded k \<and> Key k \<in> set p" by auto
      then have "p \<noteq> []" by auto
      with lw have ns: "\<not> is_string w" by (cases w; cases p) auto
      from Cons.prems(3) Key have np: "k \<noteq> ''__proto__''" and npp: "Key ''__proto__'' \<notin> set p"
        by auto
      from processEntries_field [OF False w ns pe np]
      obtain st1 where "map_of kvs' k = Some (fst (processObject st1 w))" by blast
      with Cons.IH [OF lw inp npp, of st1] m pe Key show ?thesis by simp
    qed
  next
    case (Index i)
    with Cons.prems(1) obtain xs where m: "m = JArr xs" and i: "i < length xs"
      and lw: "lookup_path (xs ! i) p = Some v"
      by (cases m) (auto split: if_splits)
    obtain ys st' where pi: "processItems st xs = (ys, st')"
      by (cases "processItems st xs")
    from Cons.prems(2) Index have inp: "\<exists>k. excluded k \<and> Key k \<in> set p" by auto
    from Cons.prems(3) have npp: "Key ''__proto__'' \<notin> set p" by simp
    from processItems_nth [OF pi i] obtain st1 where len: "length ys = length xs"
      and y: "ys ! i = fst (processObject st1 (xs ! i))" by blast
    with Cons.IH [OF lw inp npp, of st1] m pi Index i show ?thesis by simp
  qed
qed

lemma internString_table:
  assumes ok: "table_ok st" and r: "internString st (JStr s) = (v', st')"
  shows "table_ok st' \<and> set (stringTable st') = set (stringTable st) \<union> {s}"
proof (cases "stringMap st s")
  case None
  with r show ?thesis using internString_ok [OF ok r]
    by (auto simp: internString_def Let_def)
next
  case (Some i)
  with ok have "s \<in> set (stringTable st)"
    by (metis nth_mem table_ok_def)
  with r Some ok show ?thesis by (auto simp: internString_def Let_def)
qed

lemma table_contents:
  "table_ok st \<Longrightarrow> processObject st v = (v', st') \<Longrightarrow>
     table_ok st' \<and> set (stringTable st') = set (stringTable st) \<union> internedStrings v"
  "table_ok st \<Longrightarrow> processItems st xs = (xs', st') \<Longrightarrow>
     table_ok st' \<and> set (stringTable st') = set (stringTable st) \<union> internedItems xs"
  "table_ok st \<Longrightarrow> processEntries st kvs = (kvs', st') \<Longrightarrow>
     table_ok st' \<and> set (stringTable st') = set (stringTable st) \<union> internedEntries kvs"
proof (induction st v and st xs and st kvs arbitrary: v' st' and xs' st' and kvs' st'
    rule: processObject_processItems_processEntries.induct)
  case (1 st xs)
  then show ?case by (auto split: prod.splits)
next
  case (2 st kvs)
  then show ?case by (auto split: prod.splits)
next
  case (5 st x xs)
  obtain y st1 where px: "processObject st x = (y, st1)" by (cases "processObject st x")
  obtain ys st2 where pxs: "processItems st1 xs = (ys, st2)" by (cases "processItems st1 xs")
  from "5.prems" px pxs have st': "st' = st2" by auto
  from "5.IH"(1) [OF "5.prems"(1) px]
  have ok1: "table_ok st1" and t1: "set (stringTable st1) = set (stringTable st) \<union> internedStrings x"
    by auto
  from "5.IH"(2) [OF px [symmetric] refl ok1 pxs] t1 st' show ?case by auto
next
  case (7 st key v rest)
  define r where "r = (if excluded key then (v, st)
         else if is_string v then internString st v
         else processObject st v)"
  obtain w st1 where r: "r = (w, st1)" by (cases r)
  obtain rest1 st2 where pr: "processEntries st1 rest = (rest1, st2)"
    by (cases "processEntries st1 rest")
  from "7.prems"(2) r pr have st': "st' = st2" by (auto simp: r_def)
  have step: "table_ok st1 \<and> set (stringTable st1) = set (stringTable st) \<union>
       (if excluded key then {} else case v of JStr s \<Rightarrow> {s} | _ \<Rightarrow> internedStrings v)"
  proof (cases "excluded key")
    case True
    with r "7.prems"(1) show ?thesis by (auto simp: r_def)
  next
    case nx: False
    show ?thesis
    proof (cases "is_string v")
      case True
      then obtain s where s: "v = JStr s" by (cases v) auto
      with nx r have "internString st (JStr s) = (w, st1)" by (simp add: r_def)
      from internString_table [OF "7.prems"(1) this] s nx show ?thesis by simp
    next
      case False
      with nx r have "processObject st v = (w, st1)" by (simp add: r_def)
      from "7.IH"(1) [OF nx False "7.prems"(1) this] nx False show ?thesis
        by (cases v) auto
    qed
  qed
  then have ok1: "table_ok st1" by simp
  from "7.IH"(2) [OF r [unfolded r_def, symmetric] refl ok1 pr] step st' show ?case by auto
qed auto

lemma upsert_other: "k' \<noteq> k \<Longrightarrow> map_of (upsert kvs k v) k' = map_of kvs k'"
  by (induction kvs) auto

lemma optimizeManifest_path:
  assumes l: "lookup_path (JObj manifest) p = Some v"
    and x: "\<exists>k. excluded k \<and> Key k \<in> set p"
    and h: "hd p \<noteq> Key ''stringTable''"
    and np: "Key ''__proto__'' \<notin> set p"
  shows "lookup_path (JObj (optimizeManifest manifest)) p = Some v"
proof -
  obtain optimized st where pe: "processEntries emptyTable manifest = (optimized, st)"
    by (cases "processEntries emptyTable manifest")
  from x obtain s p' where p: "p = s # p'" by (cases p) auto
  with l obtain k0 where s: "s = Key k0" by (cases s) auto
  with h p have ne: "k0 \<noteq> ''stringTable''" by simp
  have "lookup_path (fst (processObject emptyTable (JObj manifest))) p = Some v"
    using processObject_path [OF l x np] .
  with pe have "lookup_path (JObj optimized) p = Some v" by simp
  with pe p s upsert_other [OF ne] show ?thesis
    by (simp add: optimizeManifest_def)
qed

text \<open>
  C10. The exclusion of \<^verbatim>\<open>version\<close>, \<^verbatim>\<open>generated\<close> and \<^verbatim>\<open>rootPath\<close> is by key name at every
  nesting depth: whatever lies at a path that passes through a field so named, and through
  no field named \<^verbatim>\<open>__proto__\<close>, is found at the same path of the output, verbatim, both in what \<^verbatim>\<open>processObject\<close> returns from any
  state and in the result of \<^verbatim>\<open>optimizeManifest\<close> (below every top-level field but the
  \<^verbatim>\<open>stringTable\<close> it writes); and the strings put into the table are exactly the string
  values of the other fields, so a value under an excluded key is never interned.
\<close>

theorem excluded_keys_every_depth:
  "(lookup_path m p = Some v \<and> (\<exists>k. excluded k \<and> Key k \<in> set p)
        \<and> Key ''__proto__'' \<notin> set p
      \<longrightarrow> lookup_path (fst (processObject st m)) p = Some v)
   \<and> (lookup_path (JObj manifest) p = Some v \<and> (\<exists>k. excluded k \<and> Key k \<in> set p)
        \<and> Key ''__proto__'' \<notin> set p \<and> hd p \<noteq> Key ''stringTable''
      \<longrightarrow> lookup_path (JObj (optimizeManifest manifest)) p = Some v)
   \<and> (table_ok st
      \<longrightarrow> set (stringTable (snd (processObject st m))) = set (stringTable st) \<union> internedStrings m)"
proof -
  obtain m' st' where r: "processObject st m = (m', st')" by (cases "processObject st m")
  have "set (stringTable st') = set (stringTable st) \<union> internedStrings m" if "table_ok st"
    using table_contents(1) [OF that r] by simp
  with r show ?thesis
    using processObject_path [of m p v st] optimizeManifest_path [of manifest p v] by auto
qed

theorem excluded_keys_every_depth_witness:
  "lookup_path (JObj sampleManifest) buildPath = Some (JStr ''any'')
   \<and> (\<exists>k. excluded k \<and> Key k \<in> set buildPath)
   \<and> Key ''__proto__'' \<notin> set buildPath
   \<and> hd buildPath \<noteq> Key ''stringTable''
   \<and> lookup_path (fst (processObject emptyTable (JObj sampleManifest))) buildPath
       = Some (JStr ''any'')
   \<and> lookup_path (JObj (optimizeManifest sampleManifest)) buildPath = Some (JStr ''any'')
   \<and> table_ok emptyTable
   \<and> set (stringTable (snd (processObject emptyTable (JObj sampleManifest))))
       = internedStrings (JObj sampleManifest)
   \<and> ''1.0.0'' \<notin> internedStrings (JObj sampleManifest)"
proof -
  have l: "lookup_path (JObj sampleManifest) buildPath = Some (JStr ''any'')" by code_simp
  have k: "\<exists>k. excluded k \<and> Key k \<in> set buildPath"
    by (rule exI [of _ "''version''"]) (simp add: excluded_def buildPath_def)
  have h: "hd buildPath \<noteq> Key ''stringTable''" by (simp add: buildPath_def)
  have n: "Key ''__proto__'' \<notin> set buildPath" by (simp add: buildPath_def)
  have t: "table_ok emptyTable" by (rule table_ok_empty)
  have e: "set (stringTable emptyTable) = {}" by (simp add: emptyTable_def)
  have i: "''1.0.0'' \<notin> internedStrings (JObj sampleManifest)" by code_simp
  from excluded_keys_every_depth
         [of "JObj sampleManifest" buildPath "JStr ''any''" emptyTable sampleManifest] l k h n t e i
  show ?thesis by simp
qed

end
